theory Spec2Isabelle
  imports Main "HOL-Library.Sublist"
begin

section \<open>Data model\<close>

text \<open>
  The repository holds two variants of the backup script: \<^verbatim>\<open>index.js\<close> and the enhanced
  script with a command listener (called part 0 below). Functions whose bodies are the
  same in both (\<^verbatim>\<open>waitForBackupCompletion\<close>, \<^verbatim>\<open>getBackupDownloadUrl\<close>,
  \<^verbatim>\<open>downloadBackup\<close>, \<^verbatim>\<open>deleteBackupFromPtero\<close>) are embedded once; the others carry
  the suffix \<open>_index\<close> or \<open>_part0\<close>.

  Every rejected promise and every thrown exception is a value of \<open>error\<close>.
  \<open>BackupTimeout\<close> is \<^verbatim>\<open>new Error('Backup timeout exceeded')\<close>, \<open>BackupFailed\<close> is
  \<^verbatim>\<open>new Error('Backup failed on server')\<close>, \<open>HttpError\<close> a rejected axios call,
  \<open>DriveError\<close> a rejected googleapis call (including a rejected \<^verbatim>\<open>initGoogleDrive\<close>),
  \<open>FsError\<close> an exception of \<^verbatim>\<open>fs\<close>, \<open>TypeError\<close> a property read on \<^verbatim>\<open>undefined\<close>.
\<close>

datatype error = HttpError | DriveError | FsError | BackupTimeout | BackupFailed | TypeError

text \<open>
  A backup as listed by the panel. \<open>createdAt\<close> is the number \<^verbatim>\<open>new Date(created_at)\<close>
  converts to (milliseconds), the only thing the comparator of \<^verbatim>\<open>sort\<close> reads.
\<close>

record ptero_backup =
  backup_id :: string
  backup_name :: string
  createdAt :: int

record drive_file =
  file_id :: string
  file_name :: string
  createdTime :: int

text \<open>\<^verbatim>\<open>response.data.attributes\<close> of a status read: \<^verbatim>\<open>is_successful\<close> is
  \<^verbatim>\<open>null\<close>, \<^verbatim>\<open>true\<close> or \<^verbatim>\<open>false\<close>; \<^verbatim>\<open>completed_at\<close> is \<^verbatim>\<open>null\<close> or a string.\<close>

record backup_attrs =
  is_successful :: "bool option"
  completed_at :: "string option"

text \<open>The calls the script makes to the outside world, in the order it makes them.\<close>

datatype action =
    PteroList
  | PteroDelete string
  | PteroCreate
  | PteroStatus string
  | PteroDownloadUrl string
  | Sleep nat
  | HttpDownload string string
  | DriveUpload string string string
  | DriveList string
  | DriveDelete string
  | Unlink string

datatype month = Jan | Feb | Mar | Apr | May | Jun | Jul | Aug | Sep | Oct | Nov | Dec

text \<open>The fields of \<^verbatim>\<open>dayjs().tz()\<close>: the wall clock of Asia/Kolkata.\<close>

record ist_time =
  t_year :: nat
  t_month :: month
  t_day :: nat
  t_hour :: nat
  t_minute :: nat
  t_second :: nat

record config =
  maxBackupsOnServer :: nat
  folderId :: string
  daysFolderId :: string
  tempDir :: string
  maxBackups :: nat
  maxDailyBackups :: nat
  initialDelay :: nat
  pollInterval :: nat
  pollTimeout :: nat

text \<open>The \<^verbatim>\<open>config\<close> object of \<^verbatim>\<open>index.js\<close>; the three identifiers come from the
  process environment. An unset \<^verbatim>\<open>GOOGLE_DRIVE_DAYS_FOLDER_ID\<close> is the empty string here:
  the script only ever tests it for truthiness before using it.\<close>

definition default_config :: "string \<Rightarrow> string \<Rightarrow> string \<Rightarrow> config" where
  "default_config main days tmp =
     \<lparr>maxBackupsOnServer = 2, folderId = main, daysFolderId = days, tempDir = tmp,
      maxBackups = 3, maxDailyBackups = 5,
      initialDelay = 30000, pollInterval = 10000, pollTimeout = 900000\<rparr>"

text \<open>
  One iteration of the poll loop as the outside world decides it: \<open>lag\<close> is the time in
  milliseconds that passes before the first \<^verbatim>\<open>Date.now()\<close> of the iteration (a timer that
  fires late), \<open>gap\<close> the time between the two \<^verbatim>\<open>Date.now()\<close> reads, \<open>latency\<close> the time
  the status request takes, \<open>resp\<close> its result (\<open>None\<close> when the request is rejected).
\<close>

record poll_obs =
  lag :: nat
  gap :: nat
  latency :: nat
  resp :: "backup_attrs option"

text \<open>How \<^verbatim>\<open>downloadBackup\<close> can end: the request is rejected (nothing on disk), the
  write stream cannot be opened (nothing on disk), the pipeline breaks after the file was
  created, or it succeeds.\<close>

datatype download_outcome = DlRejected | DlOpenFailed | DlBroken | DlOk

text \<open>
  The outside world of one cycle: the result of every remote call (\<open>None\<close> or \<open>False\<close>
  when the call is rejected), of the two \<^verbatim>\<open>unlinkSync\<close> call sites, and the wall clock at
  every \<^verbatim>\<open>dayjs()\<close> call site. The Drive calls are keyed by the folder or file they
  address. \<^verbatim>\<open>credentials.json\<close> is taken to be readable, as \<^verbatim>\<open>main\<close> found it: the
  \<^verbatim>\<open>process.exit\<close> of \<^verbatim>\<open>authorize\<close> is not part of a cycle.
\<close>

record env =
  listBackups_result :: "ptero_backup list option"
  deleteOldest_ok :: bool
  createBackup_result :: "string option"
  poll :: "nat \<Rightarrow> poll_obs"
  downloadUrl_result :: "string option"
  download_result :: download_outcome
  driveUpload_ok :: "string \<Rightarrow> bool"
  driveList_result :: "string \<Rightarrow> drive_file list option"
  driveDelete_ok :: "string \<Rightarrow> bool"
  deleteJob_ok :: bool
  deleteJob_catch_ok :: bool
  unlink_ok :: bool
  unlink_catch_ok :: bool
  dayjs_start :: ist_time
  dayjs_staging :: ist_time
  dayjs_upload :: ist_time
  dayjs_dailycheck :: ist_time
  dayjs_daysupload :: ist_time

text \<open>A call returns a value or throws, and leaves the calls it made.\<close>

type_synonym 'a res = "(error + 'a) \<times> action list"

text \<open>JavaScript truthiness of a value that is \<^verbatim>\<open>null\<close> or a string.\<close>

definition truthy :: "string option \<Rightarrow> bool" where
  "truthy v = (case v of None \<Rightarrow> False | Some s \<Rightarrow> s \<noteq> [])"

section \<open>File names\<close>

text \<open>
  The format tokens of dayjs the script uses, as the library documents them:
  \<^verbatim>\<open>YYYY\<close> four-digit year, \<^verbatim>\<open>MM\<close> and \<^verbatim>\<open>DD\<close>, \<^verbatim>\<open>HH\<close>, \<^verbatim>\<open>mm\<close>, \<^verbatim>\<open>ss\<close> two digits,
  \<^verbatim>\<open>MMM\<close> the abbreviated English month name, \<^verbatim>\<open>h\<close> the hour of the 12-hour clock
  \<^emph>\<open>without\<close> padding (\<^verbatim>\<open>hh\<close> would pad), \<^verbatim>\<open>A\<close> the meridiem in capitals.
\<close>

definition digit :: "nat \<Rightarrow> char" where
  "digit d = ''0123456789'' ! (d mod 10)"

fun decimal :: "nat \<Rightarrow> string" where
  "decimal n = (if n < 10 then [digit n] else decimal (n div 10) @ [digit n])"

declare decimal.simps [simp del]

definition padStart :: "nat \<Rightarrow> string \<Rightarrow> string" where
  "padStart w s = replicate (w - length s) (CHR ''0'') @ s"

definition fmt_YYYY :: "ist_time \<Rightarrow> string" where
  "fmt_YYYY t = padStart 4 (decimal (t_year t))"

fun month_number :: "month \<Rightarrow> nat" where
  "month_number Jan = 1" | "month_number Feb = 2" | "month_number Mar = 3"
| "month_number Apr = 4" | "month_number May = 5" | "month_number Jun = 6"
| "month_number Jul = 7" | "month_number Aug = 8" | "month_number Sep = 9"
| "month_number Oct = 10" | "month_number Nov = 11" | "month_number Dec = 12"

definition fmt_MM :: "ist_time \<Rightarrow> string" where
  "fmt_MM t = padStart 2 (decimal (month_number (t_month t)))"

fun fmt_MMM :: "month \<Rightarrow> string" where
  "fmt_MMM Jan = ''Jan''" | "fmt_MMM Feb = ''Feb''" | "fmt_MMM Mar = ''Mar''"
| "fmt_MMM Apr = ''Apr''" | "fmt_MMM May = ''May''" | "fmt_MMM Jun = ''Jun''"
| "fmt_MMM Jul = ''Jul''" | "fmt_MMM Aug = ''Aug''" | "fmt_MMM Sep = ''Sep''"
| "fmt_MMM Oct = ''Oct''" | "fmt_MMM Nov = ''Nov''" | "fmt_MMM Dec = ''Dec''"

definition fmt_DD :: "ist_time \<Rightarrow> string" where
  "fmt_DD t = padStart 2 (decimal (t_day t))"

definition fmt_HH :: "ist_time \<Rightarrow> string" where
  "fmt_HH t = padStart 2 (decimal (t_hour t))"

definition fmt_mm :: "ist_time \<Rightarrow> string" where
  "fmt_mm t = padStart 2 (decimal (t_minute t))"

definition fmt_ss :: "ist_time \<Rightarrow> string" where
  "fmt_ss t = padStart 2 (decimal (t_second t))"

text \<open>\<^verbatim>\<open>h\<close>: \<^verbatim>\<open>String(hour % 12 || 12)\<close>, padded to width one, which pads nothing.\<close>

definition fmt_h :: "ist_time \<Rightarrow> string" where
  "fmt_h t = padStart 1 (decimal (if t_hour t mod 12 = 0 then 12 else t_hour t mod 12))"

definition fmt_A :: "ist_time \<Rightarrow> string" where
  "fmt_A t = (if t_hour t < 12 then ''AM'' else ''PM'')"

text \<open>\<^verbatim>\<open>`${now.format('DD-MMM-hA')}.tar.gz`\<close>\<close>

definition mainFileName :: "ist_time \<Rightarrow> string" where
  "mainFileName t = fmt_DD t @ ''-'' @ fmt_MMM (t_month t) @ ''-'' @ fmt_h t @ fmt_A t @ ''.tar.gz''"

text \<open>\<^verbatim>\<open>`${now.format('DD-MMM-YYYY')}.tar.gz`\<close>\<close>

definition dailyFileName :: "ist_time \<Rightarrow> string" where
  "dailyFileName t = fmt_DD t @ ''-'' @ fmt_MMM (t_month t) @ ''-'' @ fmt_YYYY t @ ''.tar.gz''"

text \<open>\<^verbatim>\<open>`backup_${now.format('YYYY-MM-DD_HH-mm-ss')}.tar.gz`\<close>\<close>

definition tempFileName :: "ist_time \<Rightarrow> string" where
  "tempFileName t =
     ''backup_'' @ fmt_YYYY t @ ''-'' @ fmt_MM t @ ''-'' @ fmt_DD t @ ''_''
       @ fmt_HH t @ ''-'' @ fmt_mm t @ ''-'' @ fmt_ss t @ ''.tar.gz''"

text \<open>\<^verbatim>\<open>path.join(config.tempDir, fileName)\<close>, for a \<^verbatim>\<open>tempDir\<close> that is a normalised,
  non-empty directory without a trailing separator, as the script's own
  \<^verbatim>\<open>path.join(__dirname, 'temp_backups')\<close> is; \<^verbatim>\<open>path.join\<close> would normalise any other.\<close>

definition path_join :: "string \<Rightarrow> string \<Rightarrow> string" where
  "path_join dir file = dir @ ''/'' @ file"

text \<open>\<^verbatim>\<open>isDailyBackupTime\<close> of \<^verbatim>\<open>index.js\<close>: reads the wall clock.\<close>

definition isDailyBackupTime :: "ist_time \<Rightarrow> bool" where
  "isDailyBackupTime now = (t_hour now = 23 \<and> t_minute now = 59)"

section \<open>Retention rotation\<close>

text \<open>
  \<^verbatim>\<open>deleteOldestPteroBackup\<close> (\<^verbatim>\<open>index.js\<close>): list, and when the count has reached
  \<^verbatim>\<open>maxBackupsOnServer\<close> sort oldest first (the sort of Node is stable, as \<open>sort_key\<close> is),
  delete element 0 and wait three seconds. Reading \<^verbatim>\<open>oldestBackup.name\<close> of an empty list
  throws.
\<close>

definition deleteOldestPteroBackup :: "config \<Rightarrow> env \<Rightarrow> unit res" where
  "deleteOldestPteroBackup cfg env =
     (case listBackups_result env of
        None \<Rightarrow> (Inl HttpError, [PteroList])
      | Some backups \<Rightarrow>
          if length backups \<ge> maxBackupsOnServer cfg then
            (case sort_key createdAt backups of
               [] \<Rightarrow> (Inl TypeError, [PteroList])
             | oldestBackup # _ \<Rightarrow>
                 if deleteOldest_ok env
                 then (Inr (), [PteroList, PteroDelete (backup_id oldestBackup), Sleep 3000])
                 else (Inl HttpError, [PteroList, PteroDelete (backup_id oldestBackup)]))
          else (Inr (), [PteroList]))"

text \<open>
  \<^verbatim>\<open>deleteOldestBackupIfLimitReached\<close> (part 0): the limit is the literal 3, a failed
  deletion is logged and thrown again, and there is no wait.
\<close>

definition deleteOldestBackupIfLimitReached :: "env \<Rightarrow> unit res" where
  "deleteOldestBackupIfLimitReached env =
     (case listBackups_result env of
        None \<Rightarrow> (Inl HttpError, [PteroList])
      | Some backups \<Rightarrow>
          if length backups \<ge> 3 then
            (case sort_key createdAt backups of
               [] \<Rightarrow> (Inl TypeError, [PteroList])
             | oldestBackup # _ \<Rightarrow>
                 if deleteOldest_ok env
                 then (Inr (), [PteroList, PteroDelete (backup_id oldestBackup)])
                 else (Inl HttpError, [PteroList, PteroDelete (backup_id oldestBackup)]))
          else (Inr (), [PteroList]))"

text \<open>\<^verbatim>\<open>files.length > maxBackups\<close> guards \<^verbatim>\<open>files.slice(maxBackups)\<close>.\<close>

definition filesToDelete :: "drive_file list \<Rightarrow> nat \<Rightarrow> drive_file list" where
  "filesToDelete files maxB = (if length files > maxB then drop maxB files else [])"

text \<open>The \<^verbatim>\<open>for (const file of filesToDelete)\<close> loop: the awaited delete is not wrapped
  in a \<^verbatim>\<open>try\<close>, so the first rejection leaves the loop.\<close>

fun deleteEach :: "(string \<Rightarrow> bool) \<Rightarrow> drive_file list \<Rightarrow> unit res" where
  "deleteEach ok [] = (Inr (), [])"
| "deleteEach ok (file # rest) =
     (if ok (file_id file)
      then (case deleteEach ok rest of (r, tr) \<Rightarrow> (r, DriveDelete (file_id file) # tr))
      else (Inl DriveError, [DriveDelete (file_id file)]))"

text \<open>\<^verbatim>\<open>cleanupOldBackups(folderId, maxBackups)\<close> (part 0). The listing is asked for with
  \<^verbatim>\<open>orderBy: 'createdTime desc'\<close> and is not sorted again.\<close>

definition cleanupOldBackups_part0 :: "env \<Rightarrow> string \<Rightarrow> nat \<Rightarrow> unit res" where
  "cleanupOldBackups_part0 env folder maxB =
     (case driveList_result env folder of
        None \<Rightarrow> (Inl DriveError, [DriveList folder])
      | Some files \<Rightarrow>
          (case deleteEach (driveDelete_ok env) (filesToDelete files maxB) of
             (r, tr) \<Rightarrow> (r, DriveList folder # tr)))"

text \<open>\<^verbatim>\<open>cleanupOldBackups()\<close> (\<^verbatim>\<open>index.js\<close>): the same on the main folder.\<close>

definition cleanupOldBackups_index :: "config \<Rightarrow> env \<Rightarrow> unit res" where
  "cleanupOldBackups_index cfg env =
     (case driveList_result env (folderId cfg) of
        None \<Rightarrow> (Inl DriveError, [DriveList (folderId cfg)])
      | Some files \<Rightarrow>
          (case deleteEach (driveDelete_ok env) (filesToDelete files (maxBackups cfg)) of
             (r, tr) \<Rightarrow> (r, DriveList (folderId cfg) # tr)))"

text \<open>\<^verbatim>\<open>cleanupOldDailyBackups()\<close> (\<^verbatim>\<open>index.js\<close>): returns at once without a days folder.\<close>

definition cleanupOldDailyBackups :: "config \<Rightarrow> env \<Rightarrow> unit res" where
  "cleanupOldDailyBackups cfg env =
     (if daysFolderId cfg = [] then (Inr (), [])
      else
        (case driveList_result env (daysFolderId cfg) of
           None \<Rightarrow> (Inl DriveError, [DriveList (daysFolderId cfg)])
         | Some files \<Rightarrow>
             (case deleteEach (driveDelete_ok env) (filesToDelete files (maxDailyBackups cfg)) of
                (r, tr) \<Rightarrow> (r, DriveList (daysFolderId cfg) # tr))))"

section \<open>Remote backup client\<close>

definition createBackup_index :: "config \<Rightarrow> env \<Rightarrow> string res" where
  "createBackup_index cfg env =
     (case deleteOldestPteroBackup cfg env of
        (Inl e, tr) \<Rightarrow> (Inl e, tr)
      | (Inr _, tr) \<Rightarrow>
          (case createBackup_result env of
             None \<Rightarrow> (Inl HttpError, tr @ [PteroCreate])
           | Some uuid \<Rightarrow> (Inr uuid, tr @ [PteroCreate])))"

definition createBackup_part0 :: "env \<Rightarrow> string res" where
  "createBackup_part0 env =
     (case deleteOldestBackupIfLimitReached env of
        (Inl e, tr) \<Rightarrow> (Inl e, tr)
      | (Inr _, tr) \<Rightarrow>
          (case createBackup_result env of
             None \<Rightarrow> (Inl HttpError, tr @ [PteroCreate])
           | Some uuid \<Rightarrow> (Inr uuid, tr @ [PteroCreate])))"

text \<open>The local variables of the poll loop when it is left; \<open>since_start\<close> is the last
  value of \<^verbatim>\<open>Date.now() - startTime\<close> the loop has seen or reached.\<close>

record poll_exit =
  checkCount :: nat
  elapsed :: nat
  since_start :: nat

text \<open>
  The \<^verbatim>\<open>while (true)\<close> loop of \<^verbatim>\<open>waitForBackupCompletion\<close>. \<open>n\<close> is \<^verbatim>\<open>checkCount\<close> before
  the increment, \<open>now\<close> the time since \<^verbatim>\<open>startTime\<close> in milliseconds at the top of the
  iteration. \<^verbatim>\<open>Math.round(x / 1000)\<close> of a natural number is \<open>(x + 500) div 1000\<close>. The
  clock is taken to be monotone. The last \<^verbatim>\<open>if\<close> of the body has no \<^verbatim>\<open>else\<close>: a reading
  that is successful without \<^verbatim>\<open>completed_at\<close> falls through to the next iteration with no
  \<^verbatim>\<open>setTimeout\<close>. A loop that never leaves is \<open>None\<close>.
\<close>

partial_function (option) poll_loop ::
  "config \<Rightarrow> (nat \<Rightarrow> poll_obs) \<Rightarrow> string \<Rightarrow> nat \<Rightarrow> nat \<Rightarrow> action list
     \<Rightarrow> ((error + backup_attrs) \<times> poll_exit \<times> action list) option" where
  "poll_loop cfg obs backupId n now tr =
     (let ob = obs n;
          count = n + 1;
          t1 = now + lag ob;
          secs = (t1 + 500) div 1000;
          t2 = t1 + gap ob
      in if t2 > pollTimeout cfg
         then Some (Inl BackupTimeout,
                    \<lparr>checkCount = count, elapsed = secs, since_start = t2\<rparr>, tr)
         else
           (let t3 = t2 + latency ob;
                tr' = tr @ [PteroStatus backupId];
                ex = \<lparr>checkCount = count, elapsed = secs, since_start = t3\<rparr>
            in case resp ob of
                 None \<Rightarrow> Some (Inl HttpError, ex, tr')
               | Some backup \<Rightarrow>
                   if is_successful backup = Some True \<and> truthy (completed_at backup)
                   then Some (Inr backup, ex, tr')
                   else if is_successful backup = None
                           \<or> (is_successful backup = Some False \<and> secs \<le> 60)
                   then poll_loop cfg obs backupId count (t3 + pollInterval cfg)
                          (tr' @ [Sleep (pollInterval cfg)])
                   else if is_successful backup = Some False
                   then Some (Inl BackupFailed, ex, tr')
                   else poll_loop cfg obs backupId count t3 tr'))"

declare poll_loop.simps [code]

text \<open>\<^verbatim>\<open>waitForBackupCompletion\<close>: the initial delay, then the loop from
  \<^verbatim>\<open>startTime = Date.now()\<close>.\<close>

definition waitForBackupCompletion ::
  "config \<Rightarrow> env \<Rightarrow> string \<Rightarrow> ((error + backup_attrs) \<times> poll_exit \<times> action list) option" where
  "waitForBackupCompletion cfg env backupId =
     poll_loop cfg (poll env) backupId 0 0 [Sleep (initialDelay cfg)]"

definition getBackupDownloadUrl :: "env \<Rightarrow> string \<Rightarrow> string res" where
  "getBackupDownloadUrl env backupId =
     (case downloadUrl_result env of
        None \<Rightarrow> (Inl HttpError, [PteroDownloadUrl backupId])
      | Some url \<Rightarrow> (Inr url, [PteroDownloadUrl backupId]))"

text \<open>\<^verbatim>\<open>deleteBackupFromPtero\<close> catches and logs whatever the request throws.\<close>

definition deleteBackupFromPtero :: "bool \<Rightarrow> string \<Rightarrow> unit res" where
  "deleteBackupFromPtero ok backupId =
     (if ok then (Inr (), [PteroDelete backupId]) else (Inr (), [PteroDelete backupId]))"

definition uploadToGoogleDrive_part0 :: "env \<Rightarrow> string \<Rightarrow> string \<Rightarrow> string \<Rightarrow> unit res" where
  "uploadToGoogleDrive_part0 env path folder fileName =
     (if driveUpload_ok env folder
      then (Inr (), [DriveUpload path folder fileName])
      else (Inl DriveError, [DriveUpload path folder fileName]))"

text \<open>\<^verbatim>\<open>uploadToGoogleDrive(localPath)\<close> (\<^verbatim>\<open>index.js\<close>) names the file itself, from the
  wall clock at the time of the upload.\<close>

definition uploadToGoogleDrive_index :: "config \<Rightarrow> env \<Rightarrow> string \<Rightarrow> unit res" where
  "uploadToGoogleDrive_index cfg env path =
     (let fileName = mainFileName (dayjs_upload env)
      in if driveUpload_ok env (folderId cfg)
         then (Inr (), [DriveUpload path (folderId cfg) fileName])
         else (Inl DriveError, [DriveUpload path (folderId cfg) fileName]))"

text \<open>\<^verbatim>\<open>uploadToDaysFolder\<close> (\<^verbatim>\<open>index.js\<close>): logs a warning and returns \<^verbatim>\<open>null\<close> without a
  days folder.\<close>

definition uploadToDaysFolder :: "config \<Rightarrow> env \<Rightarrow> string \<Rightarrow> unit res" where
  "uploadToDaysFolder cfg env path =
     (if daysFolderId cfg = [] then (Inr (), [])
      else
        (let fileName = dailyFileName (dayjs_daysupload env)
         in if driveUpload_ok env (daysFolderId cfg)
            then (Inr (), [DriveUpload path (daysFolderId cfg) fileName])
            else (Inl DriveError, [DriveUpload path (daysFolderId cfg) fileName])))"

section \<open>The backup cycle\<close>

text \<open>The state a cycle threads: the calls made so far, the files on disk, and the two
  variables declared before the \<^verbatim>\<open>try\<close>.\<close>

record state =
  trace :: "action list"
  disk :: "string set"
  backupId :: "string option"
  localPath :: "string option"

type_synonym 'a prog = "state \<Rightarrow> (error + 'a) \<times> state"

text \<open>Sequencing inside the \<^verbatim>\<open>try\<close> block: a throw skips what follows and keeps the state
  it was raised in.\<close>

definition andThen :: "'a prog \<Rightarrow> ('a \<Rightarrow> 'b prog) \<Rightarrow> 'b prog" where
  "andThen f g s = (case f s of (Inl e, s') \<Rightarrow> (Inl e, s') | (Inr x, s') \<Rightarrow> g x s')"

definition call :: "'a res \<Rightarrow> 'a prog" where
  "call m s = (fst m, s\<lparr>trace := trace s @ snd m\<rparr>)"

definition skip :: "unit prog" where
  "skip s = (Inr (), s)"

definition set_localPath :: "string \<Rightarrow> string prog" where
  "set_localPath p s = (Inr p, s\<lparr>localPath := Some p\<rparr>)"

definition downloadBackup :: "env \<Rightarrow> string \<Rightarrow> string \<Rightarrow> unit prog" where
  "downloadBackup env url path s =
     (case download_result env of
        DlRejected \<Rightarrow> (Inl HttpError, s\<lparr>trace := trace s @ [HttpDownload url path]\<rparr>)
      | DlOpenFailed \<Rightarrow> (Inl FsError, s\<lparr>trace := trace s @ [HttpDownload url path]\<rparr>)
      | DlBroken \<Rightarrow>
          (Inl HttpError,
           s\<lparr>trace := trace s @ [HttpDownload url path], disk := insert path (disk s)\<rparr>)
      | DlOk \<Rightarrow>
          (Inr (), s\<lparr>trace := trace s @ [HttpDownload url path], disk := insert path (disk s)\<rparr>))"

definition unlinkSync :: "bool \<Rightarrow> string \<Rightarrow> unit prog" where
  "unlinkSync ok path s =
     (if ok then (Inr (), s\<lparr>trace := trace s @ [Unlink path], disk := disk s - {path}\<rparr>)
      else (Inl FsError, s\<lparr>trace := trace s @ [Unlink path]\<rparr>))"

text \<open>\<^verbatim>\<open>if (fs.existsSync(localPath)) { fs.unlinkSync(localPath); ... }\<close>\<close>

definition unlinkIfExists :: "bool \<Rightarrow> string \<Rightarrow> unit prog" where
  "unlinkIfExists ok path s =
     (if path \<in> disk s then unlinkSync ok path s else (Inr (), s))"

datatype outcome = Completed | Failed error

text \<open>
  The \<^verbatim>\<open>catch\<close> block, the same in both scripts:
  \<^verbatim>\<open>if (backupId) await deleteBackupFromPtero(backupId);\<close>
  \<^verbatim>\<open>if (localPath && fs.existsSync(localPath)) fs.unlinkSync(localPath);\<close>
  An exception of \<^verbatim>\<open>unlinkSync\<close> here leaves \<^verbatim>\<open>runBackupCycle\<close> (\<open>Inl\<close>).
\<close>

definition catch_block :: "env \<Rightarrow> error \<Rightarrow> state \<Rightarrow> (error + outcome) \<times> state" where
  "catch_block env err s =
     (let s1 = (case backupId s of
                  None \<Rightarrow> s
                | Some b \<Rightarrow>
                    if truthy (Some b)
                    then snd (call (deleteBackupFromPtero (deleteJob_catch_ok env) b) s)
                    else s)
      in case localPath s1 of
           None \<Rightarrow> (Inr (Failed err), s1)
         | Some p \<Rightarrow>
             if truthy (Some p) \<and> p \<in> disk s1
             then (case unlinkSync (unlink_catch_ok env) p s1 of
                     (Inl e, s2) \<Rightarrow> (Inl e, s2)
                   | (Inr _, s2) \<Rightarrow> (Inr (Failed err), s2))
             else (Inr (Failed err), s1))"

definition finish :: "env \<Rightarrow> (error + unit) \<times> state \<Rightarrow> (error + outcome) \<times> state" where
  "finish env r = (case r of (Inl e, s) \<Rightarrow> catch_block env e s | (Inr _, s) \<Rightarrow> (Inr Completed, s))"

text \<open>The \<^verbatim>\<open>try\<close> block of \<^verbatim>\<open>runBackupCycle\<close> in \<^verbatim>\<open>index.js\<close>, after the wait.\<close>

definition transfer_index :: "config \<Rightarrow> env \<Rightarrow> string \<Rightarrow> unit prog" where
  "transfer_index cfg env bid =
     andThen (call (getBackupDownloadUrl env bid)) (\<lambda>downloadUrl.
     andThen (set_localPath (path_join (tempDir cfg) (tempFileName (dayjs_staging env)))) (\<lambda>path.
     andThen (downloadBackup env downloadUrl path) (\<lambda>_.
     andThen (call (uploadToGoogleDrive_index cfg env path)) (\<lambda>_.
     andThen (if isDailyBackupTime (dayjs_dailycheck env)
              then andThen (call (uploadToDaysFolder cfg env path))
                     (\<lambda>_. call (cleanupOldDailyBackups cfg env))
              else skip) (\<lambda>_.
     andThen (call (deleteBackupFromPtero (deleteJob_ok env) bid)) (\<lambda>_.
     andThen (call (cleanupOldBackups_index cfg env)) (\<lambda>_.
     unlinkIfExists (unlink_ok env) path)))))))"

text \<open>The \<^verbatim>\<open>try\<close> block of \<^verbatim>\<open>runBackupCycle(isDailyBackup)\<close> in part 0, after the wait;
  every name comes from the one \<^verbatim>\<open>now\<close> read when the cycle starts.\<close>

definition transfer_part0 :: "config \<Rightarrow> env \<Rightarrow> bool \<Rightarrow> string \<Rightarrow> unit prog" where
  "transfer_part0 cfg env isDailyBackup bid =
     andThen (call (getBackupDownloadUrl env bid)) (\<lambda>downloadUrl.
     andThen (set_localPath (path_join (tempDir cfg) (tempFileName (dayjs_start env)))) (\<lambda>path.
     andThen (downloadBackup env downloadUrl path) (\<lambda>_.
     andThen (call (uploadToGoogleDrive_part0 env path (folderId cfg)
                      (mainFileName (dayjs_start env)))) (\<lambda>_.
     andThen (call (cleanupOldBackups_part0 env (folderId cfg) (maxBackups cfg))) (\<lambda>_.
     andThen (if isDailyBackup \<and> daysFolderId cfg \<noteq> []
              then andThen (call (uploadToGoogleDrive_part0 env path (daysFolderId cfg)
                                    (dailyFileName (dayjs_start env))))
                     (\<lambda>_. call (cleanupOldBackups_part0 env (daysFolderId cfg)
                                  (maxDailyBackups cfg)))
              else skip) (\<lambda>_.
     andThen (call (deleteBackupFromPtero (deleteJob_ok env) bid)) (\<lambda>_.
     unlinkIfExists (unlink_ok env) path)))))))"

text \<open>
  \<^verbatim>\<open>runBackupCycle\<close>: \<open>None\<close> when the poll loop never leaves, \<open>Inl\<close> when an exception
  leaves the function, \<open>Inr\<close> when it returns, after logging completion or failure.
\<close>

definition initial_state :: "string set \<Rightarrow> state" where
  "initial_state files = \<lparr>trace = [], disk = files, backupId = None, localPath = None\<rparr>"

definition runBackupCycle_index ::
  "config \<Rightarrow> env \<Rightarrow> string set \<Rightarrow> ((error + outcome) \<times> state) option" where
  "runBackupCycle_index cfg env files =
     (case call (createBackup_index cfg env) (initial_state files) of
        (Inl e, s) \<Rightarrow> Some (catch_block env e s)
      | (Inr bid, s) \<Rightarrow>
          (case waitForBackupCompletion cfg env bid of
             None \<Rightarrow> None
           | Some (w, ex, tr) \<Rightarrow>
               Some (finish env
                 (andThen (call (w, tr)) (\<lambda>_. transfer_index cfg env bid)
                    (s\<lparr>backupId := Some bid\<rparr>)))))"

definition runBackupCycle_part0 ::
  "config \<Rightarrow> env \<Rightarrow> bool \<Rightarrow> string set \<Rightarrow> ((error + outcome) \<times> state) option" where
  "runBackupCycle_part0 cfg env isDailyBackup files =
     (case call (createBackup_part0 env) (initial_state files) of
        (Inl e, s) \<Rightarrow> Some (catch_block env e s)
      | (Inr bid, s) \<Rightarrow>
          (case waitForBackupCompletion cfg env bid of
             None \<Rightarrow> None
           | Some (w, ex, tr) \<Rightarrow>
               Some (finish env
                 (andThen (call (w, tr)) (\<lambda>_. transfer_part0 cfg env isDailyBackup bid)
                    (s\<lparr>backupId := Some bid\<rparr>)))))"

section \<open>Reading a trace\<close>

fun is_ptero_delete :: "action \<Rightarrow> bool" where
  "is_ptero_delete (PteroDelete b) = True"
| "is_ptero_delete _ = False"

fun is_drive_call :: "action \<Rightarrow> bool" where
  "is_drive_call (DriveUpload p f n) = True"
| "is_drive_call (DriveList f) = True"
| "is_drive_call _ = False"

text \<open>The number of delete requests for one backup in a trace.\<close>

definition job_deletes :: "string \<Rightarrow> action list \<Rightarrow> nat" where
  "job_deletes b tr = length (filter (\<lambda>a. a = PteroDelete b) tr)"

text \<open>
  The time of the first \<^verbatim>\<open>Date.now()\<close> of read \<open>i\<close>, in milliseconds since
  \<^verbatim>\<open>startTime\<close>, on a timeline where every earlier read was followed by the sleep: the
  sum of what the outside world took and of the poll intervals.
\<close>

fun read_at :: "config \<Rightarrow> (nat \<Rightarrow> poll_obs) \<Rightarrow> nat \<Rightarrow> nat" where
  "read_at cfg obs 0 = lag (obs 0)"
| "read_at cfg obs (Suc i) =
     read_at cfg obs i + gap (obs i) + latency (obs i) + pollInterval cfg + lag (obs (Suc i))"

section \<open>Concrete runs\<close>

definition cfg0 :: config where
  "cfg0 = default_config ''main'' ''days'' ''temp_backups''"

definition two_pm :: ist_time where
  "two_pm = \<lparr>t_year = 2025, t_month = Nov, t_day = 29, t_hour = 14, t_minute = 0, t_second = 5\<rparr>"

definition last_minute :: ist_time where
  "last_minute =
     \<lparr>t_year = 2025, t_month = Nov, t_day = 29, t_hour = 23, t_minute = 59, t_second = 5\<rparr>"

definition in_progress :: backup_attrs where
  "in_progress = \<lparr>is_successful = None, completed_at = None\<rparr>"

definition failed :: backup_attrs where
  "failed = \<lparr>is_successful = Some False, completed_at = None\<rparr>"

definition succeeded :: backup_attrs where
  "succeeded = \<lparr>is_successful = Some True, completed_at = Some ''2025-11-29T14:01:00+05:30''\<rparr>"

definition succeeded_incomplete :: backup_attrs where
  "succeeded_incomplete = \<lparr>is_successful = Some True, completed_at = None\<rparr>"

text \<open>A status request that takes \<open>ms\<close> milliseconds, with no other delay.\<close>

definition answer :: "nat \<Rightarrow> backup_attrs \<Rightarrow> poll_obs" where
  "answer ms b = \<lparr>lag = 0, gap = 0, latency = ms, resp = Some b\<rparr>"

definition backup_at :: "string \<Rightarrow> int \<Rightarrow> ptero_backup" where
  "backup_at i t = \<lparr>backup_id = i, backup_name = i, createdAt = t\<rparr>"

definition file_at :: "string \<Rightarrow> int \<Rightarrow> drive_file" where
  "file_at i t = \<lparr>file_id = i, file_name = i, createdTime = t\<rparr>"

text \<open>A world in which every call succeeds, nothing is stored yet, and the first status
  read finds the backup complete.\<close>

definition calm :: env where
  "calm =
     \<lparr>listBackups_result = Some [], deleteOldest_ok = True, createBackup_result = Some ''job'',
      poll = (\<lambda>i. answer 200 succeeded), downloadUrl_result = Some ''url'',
      download_result = DlOk, driveUpload_ok = (\<lambda>f. True),
      driveList_result = (\<lambda>f. Some []), driveDelete_ok = (\<lambda>i. True),
      deleteJob_ok = True, deleteJob_catch_ok = True, unlink_ok = True, unlink_catch_ok = True,
      dayjs_start = two_pm, dayjs_staging = two_pm, dayjs_upload = two_pm,
      dayjs_dailycheck = two_pm, dayjs_daysupload = two_pm\<rparr>"

definition upload_fails :: env where
  "upload_fails = calm\<lparr>driveUpload_ok := (\<lambda>f. False)\<rparr>"

definition staged :: string where
  "staged = ''temp_backups/backup_2025-11-29_14-00-05.tar.gz''"

definition list_fails :: env where
  "list_fails = calm\<lparr>driveList_result := (\<lambda>f. None)\<rparr>"

definition four_backups :: "ptero_backup list" where
  "four_backups =
     [backup_at ''b4'' 4, backup_at ''b3'' 3, backup_at ''b2'' 2, backup_at ''b1'' 1]"

definition five_files :: "drive_file list" where
  "five_files =
     [file_at ''f5'' 5, file_at ''f4'' 4, file_at ''f3'' 3, file_at ''f2'' 2, file_at ''f1'' 1]"

text \<open>Four backups on the panel and five files in every Drive folder.\<close>

definition stocked :: env where
  "stocked = calm\<lparr>listBackups_result := Some four_backups,
                   driveList_result := (\<lambda>f. Some five_files)\<rparr>"

text \<open>The same, and Drive refuses to delete the file \<^verbatim>\<open>f2\<close>.\<close>

definition delete_fails :: env where
  "delete_fails = calm\<lparr>driveList_result := (\<lambda>f. Some five_files),
                        driveDelete_ok := (\<lambda>i. i \<noteq> ''f2'')\<rparr>"

text \<open>The panel refuses to delete the oldest backup.\<close>

definition eager_fails :: env where
  "eager_fails = calm\<lparr>listBackups_result := Some four_backups, deleteOldest_ok := False\<rparr>"

definition at_last_minute :: env where
  "at_last_minute = calm\<lparr>dayjs_dailycheck := last_minute\<rparr>"

definition cfg_no_days :: config where
  "cfg_no_days = cfg0\<lparr>daysFolderId := []\<rparr>"

definition cfg_short :: config where
  "cfg_short = cfg0\<lparr>pollTimeout := 25000\<rparr>"

text \<open>Every status read takes 25 seconds and reports failure.\<close>

definition always_failed :: env where
  "always_failed = calm\<lparr>poll := (\<lambda>i. answer 25000 failed)\<rparr>"

definition never_done :: env where
  "never_done = calm\<lparr>poll := (\<lambda>i. answer 200 in_progress)\<rparr>"

text \<open>The scenario of the specification: failed at 5 s, succeeded at 40 s.\<close>

definition transient :: env where
  "transient = calm\<lparr>poll := (\<lambda>i.
      if i = 0 then \<lparr>lag = 5000, gap = 0, latency = 200, resp = Some failed\<rparr>
      else \<lparr>lag = 24800, gap = 0, latency = 200, resp = Some succeeded\<rparr>)\<rparr>"

text \<open>The first read reports success without \<^verbatim>\<open>completed_at\<close>, the second with it.\<close>

definition incomplete_first :: env where
  "incomplete_first = calm\<lparr>poll := (\<lambda>i.
      if i = 0 then answer 200 succeeded_incomplete else answer 200 succeeded)\<rparr>"

section \<open>A program logic for the \<open>try\<close> block\<close>

text \<open>\<open>triple P f Q E\<close>: from a state in \<open>P\<close>, \<open>f\<close> returns into \<open>Q\<close> or throws into \<open>E\<close>.\<close>

definition triple ::
  "(state \<Rightarrow> bool) \<Rightarrow> 'a prog \<Rightarrow> ('a \<Rightarrow> state \<Rightarrow> bool) \<Rightarrow> (error \<Rightarrow> state \<Rightarrow> bool) \<Rightarrow> bool" where
  "triple P f Q E =
     (\<forall>s r s'. P s \<longrightarrow> f s = (r, s') \<longrightarrow> (case r of Inr x \<Rightarrow> Q x s' | Inl e \<Rightarrow> E e s'))"

lemma triple_andThen:
  "(\<And>x. triple (R x) (g x) Q E) \<Longrightarrow> triple P f R E \<Longrightarrow> triple P (andThen f g) Q E"
  unfolding triple_def andThen_def
  by (fastforce split: prod.splits sum.splits)

lemma triple_pre: "triple P' f Q E \<Longrightarrow> (\<And>s. P s \<Longrightarrow> P' s) \<Longrightarrow> triple P f Q E"
  unfolding triple_def by blast

lemma triple_call:
  "triple (\<lambda>s. (\<forall>x. fst m = Inr x \<longrightarrow> Q x (s\<lparr>trace := trace s @ snd m\<rparr>))
              \<and> (\<forall>e. fst m = Inl e \<longrightarrow> E e (s\<lparr>trace := trace s @ snd m\<rparr>)))
     (call m) Q E"
  unfolding triple_def call_def by (auto split: sum.splits)

lemma triple_skip: "triple (Q ()) skip Q E"
  unfolding triple_def skip_def by auto

lemma triple_set_localPath:
  "triple (\<lambda>s. Q p (s\<lparr>localPath := Some p\<rparr>)) (set_localPath p) Q E"
  unfolding triple_def set_localPath_def by auto

lemma triple_downloadBackup:
  "triple (\<lambda>s. (download_result env = DlRejected \<longrightarrow>
                   E HttpError (s\<lparr>trace := trace s @ [HttpDownload url p]\<rparr>))
              \<and> (download_result env = DlOpenFailed \<longrightarrow>
                   E FsError (s\<lparr>trace := trace s @ [HttpDownload url p]\<rparr>))
              \<and> (download_result env = DlBroken \<longrightarrow>
                   E HttpError (s\<lparr>trace := trace s @ [HttpDownload url p],
                                  disk := insert p (disk s)\<rparr>))
              \<and> (download_result env = DlOk \<longrightarrow>
                   Q () (s\<lparr>trace := trace s @ [HttpDownload url p],
                           disk := insert p (disk s)\<rparr>)))
     (downloadBackup env url p) Q E"
  unfolding triple_def downloadBackup_def by (auto split: download_outcome.splits)

lemma triple_unlinkIfExists:
  "triple (\<lambda>s. (p \<notin> disk s \<longrightarrow> Q () s)
              \<and> (p \<in> disk s \<longrightarrow>
                   (ok \<longrightarrow> Q () (s\<lparr>trace := trace s @ [Unlink p], disk := disk s - {p}\<rparr>))
                 \<and> (\<not> ok \<longrightarrow> E FsError (s\<lparr>trace := trace s @ [Unlink p]\<rparr>))))
     (unlinkIfExists ok p) Q E"
  unfolding triple_def unlinkIfExists_def unlinkSync_def by auto

lemma triple_if:
  "triple P1 f Q E \<Longrightarrow> triple P2 g Q E \<Longrightarrow>
   triple (\<lambda>s. (c \<longrightarrow> P1 s) \<and> (\<not> c \<longrightarrow> P2 s)) (if c then f else g) Q E"
  unfolding triple_def by auto

lemmas wp_rules =
  triple_andThen triple_call triple_skip triple_set_localPath triple_downloadBackup
  triple_unlinkIfExists triple_if

text \<open>The poll result enters the \<^verbatim>\<open>try\<close> block as one more call.\<close>

lemma after_wait:
  "triple P transfer Q E \<Longrightarrow>
   triple (\<lambda>s. (\<forall>x. w = Inr x \<longrightarrow> P (s\<lparr>trace := trace s @ tr\<rparr>))
              \<and> (\<forall>e. w = Inl e \<longrightarrow> E e (s\<lparr>trace := trace s @ tr\<rparr>)))
     (andThen (call (w, tr)) (\<lambda>_. transfer)) Q E"
  by (rule triple_pre, rule triple_andThen [where R = "\<lambda>_. P"], assumption, rule triple_call)
     simp

lemma finish_triple:
  assumes "triple P f Q E" "P s" "finish env (f s) = (out, s'')"
  shows "(out = Inr Completed \<and> Q () s'')
       \<or> (\<exists>e s'. E e s' \<and> catch_block env e s' = (out, s''))"
proof (cases "f s")
  case (Pair r s')
  show ?thesis
  proof (cases r)
    case (Inl e)
    with Pair assms show ?thesis by (auto simp: triple_def finish_def)
  next
    case (Inr u)
    with Pair assms show ?thesis by (auto simp: triple_def finish_def)
  qed
qed

text \<open>The ways through \<^verbatim>\<open>runBackupCycle\<close>: \<^verbatim>\<open>createBackup\<close> throws, or the wait ends and
  the rest of the \<^verbatim>\<open>try\<close> block runs.\<close>

lemma runBackupCycle_part0_cases:
  assumes "runBackupCycle_part0 cfg env flag files = Some (out, s)"
  obtains (create_failed) e tr0 where
      "createBackup_part0 env = (Inl e, tr0)"
      "catch_block env e \<lparr>trace = tr0, disk = files, backupId = None, localPath = None\<rparr>
         = (out, s)"
  | (waited) bid tr0 w ex tr where
      "createBackup_part0 env = (Inr bid, tr0)"
      "waitForBackupCompletion cfg env bid = Some (w, ex, tr)"
      "finish env (andThen (call (w, tr)) (\<lambda>_. transfer_part0 cfg env flag bid)
         \<lparr>trace = tr0, disk = files, backupId = Some bid, localPath = None\<rparr>) = (out, s)"
proof -
  obtain r0 tr0 where c: "createBackup_part0 env = (r0, tr0)"
    by (cases "createBackup_part0 env")
  show thesis
  proof (cases r0)
    case (Inl e)
    with c assms have
      "catch_block env e \<lparr>trace = tr0, disk = files, backupId = None, localPath = None\<rparr>
         = (out, s)"
      by (simp add: runBackupCycle_part0_def call_def initial_state_def)
    with c Inl show thesis by (auto intro: create_failed)
  next
    case (Inr bid)
    with c assms obtain w ex tr where
      "waitForBackupCompletion cfg env bid = Some (w, ex, tr)"
      "finish env (andThen (call (w, tr)) (\<lambda>_. transfer_part0 cfg env flag bid)
         \<lparr>trace = tr0, disk = files, backupId = Some bid, localPath = None\<rparr>) = (out, s)"
      by (auto simp: runBackupCycle_part0_def call_def initial_state_def
          split: option.splits prod.splits)
    with c Inr show thesis by (auto intro: waited)
  qed
qed

lemma runBackupCycle_index_cases:
  assumes "runBackupCycle_index cfg env files = Some (out, s)"
  obtains (create_failed) e tr0 where
      "createBackup_index cfg env = (Inl e, tr0)"
      "catch_block env e \<lparr>trace = tr0, disk = files, backupId = None, localPath = None\<rparr>
         = (out, s)"
  | (waited) bid tr0 w ex tr where
      "createBackup_index cfg env = (Inr bid, tr0)"
      "waitForBackupCompletion cfg env bid = Some (w, ex, tr)"
      "finish env (andThen (call (w, tr)) (\<lambda>_. transfer_index cfg env bid)
         \<lparr>trace = tr0, disk = files, backupId = Some bid, localPath = None\<rparr>) = (out, s)"
proof -
  obtain r0 tr0 where c: "createBackup_index cfg env = (r0, tr0)"
    by (cases "createBackup_index cfg env")
  show thesis
  proof (cases r0)
    case (Inl e)
    with c assms have
      "catch_block env e \<lparr>trace = tr0, disk = files, backupId = None, localPath = None\<rparr>
         = (out, s)"
      by (simp add: runBackupCycle_index_def call_def initial_state_def)
    with c Inl show thesis by (auto intro: create_failed)
  next
    case (Inr bid)
    with c assms obtain w ex tr where
      "waitForBackupCompletion cfg env bid = Some (w, ex, tr)"
      "finish env (andThen (call (w, tr)) (\<lambda>_. transfer_index cfg env bid)
         \<lparr>trace = tr0, disk = files, backupId = Some bid, localPath = None\<rparr>) = (out, s)"
      by (auto simp: runBackupCycle_index_def call_def initial_state_def
          split: option.splits prod.splits)
    with c Inr show thesis by (auto intro: waited)
  qed
qed

section \<open>Evaluating concrete runs\<close>

lemmas name_defs =
  mainFileName_def dailyFileName_def tempFileName_def fmt_YYYY_def fmt_MM_def fmt_DD_def
  fmt_HH_def fmt_mm_def fmt_ss_def fmt_h_def fmt_A_def padStart_def digit_def
  decimal.simps two_pm_def last_minute_def

lemma names_two_pm:
  "mainFileName two_pm = ''29-Nov-2PM.tar.gz''"
  "tempFileName two_pm = ''backup_2025-11-29_14-00-05.tar.gz''"
  "dailyFileName two_pm = ''29-Nov-2025.tar.gz''"
  by (simp_all add: name_defs)

lemma daily_times:
  "isDailyBackupTime two_pm = False"
  "isDailyBackupTime last_minute = True"
  by (simp_all add: isDailyBackupTime_def two_pm_def last_minute_def)

lemmas run_defs =
  runBackupCycle_part0_def runBackupCycle_index_def transfer_part0_def transfer_index_def
  andThen_def call_def skip_def set_localPath_def downloadBackup_def unlinkIfExists_def
  unlinkSync_def finish_def catch_block_def initial_state_def truthy_def path_join_def
  createBackup_index_def createBackup_part0_def deleteOldestPteroBackup_def
  deleteOldestBackupIfLimitReached_def waitForBackupCompletion_def poll_loop.simps
  getBackupDownloadUrl_def deleteBackupFromPtero_def uploadToGoogleDrive_part0_def
  uploadToGoogleDrive_index_def uploadToDaysFolder_def cleanupOldBackups_part0_def
  cleanupOldBackups_index_def cleanupOldDailyBackups_def filesToDelete_def daily_times
  cfg0_def default_config_def calm_def answer_def succeeded_def failed_def in_progress_def
  succeeded_incomplete_def backup_at_def file_at_def staged_def Let_def names_two_pm

section \<open>The staging file\<close>

lemma transfer_part0_disk:
  "triple (\<lambda>s. localPath s = None \<and> disk s \<subseteq> files)
     (transfer_part0 cfg env flag bid)
     (\<lambda>_ s'. (\<exists>p. localPath s' = Some p \<and> p \<notin> disk s') \<and> disk s' \<subseteq> files)
     (\<lambda>_ s'. case localPath s' of None \<Rightarrow> disk s' \<subseteq> files
              | Some p \<Rightarrow> p \<noteq> [] \<and> disk s' \<subseteq> insert p files)"
  unfolding transfer_part0_def
  apply (rule triple_pre)
   apply (rule wp_rules)+
  apply (auto simp: path_join_def)
  done

lemma transfer_index_disk:
  "triple (\<lambda>s. localPath s = None \<and> disk s \<subseteq> files)
     (transfer_index cfg env bid)
     (\<lambda>_ s'. (\<exists>p. localPath s' = Some p \<and> p \<notin> disk s') \<and> disk s' \<subseteq> files)
     (\<lambda>_ s'. case localPath s' of None \<Rightarrow> disk s' \<subseteq> files
              | Some p \<Rightarrow> p \<noteq> [] \<and> disk s' \<subseteq> insert p files)"
  unfolding transfer_index_def
  apply (rule triple_pre)
   apply (rule wp_rules)+
  apply (auto simp: path_join_def)
  done

lemma catch_block_disk:
  assumes "catch_block env err s = (Inr out, s')"
    and "case localPath s of None \<Rightarrow> disk s \<subseteq> files
         | Some p \<Rightarrow> p \<noteq> [] \<and> disk s \<subseteq> insert p files"
  shows "(\<forall>p. localPath s' = Some p \<longrightarrow> p \<notin> disk s') \<and> disk s' \<subseteq> files"
  using assms
  by (auto simp: catch_block_def call_def unlinkSync_def truthy_def Let_def
      split: option.splits if_splits)

lemma staging_removed_part0:
  assumes "runBackupCycle_part0 cfg env flag files = Some (Inr out, s)"
  shows "(\<forall>p. localPath s = Some p \<longrightarrow> p \<notin> disk s) \<and> disk s \<subseteq> files"
  using assms
proof (cases rule: runBackupCycle_part0_cases)
  case (create_failed e tr0)
  from create_failed(2) show ?thesis
    by (rule catch_block_disk) simp
next
  case (waited bid tr0 w ex tr)
  from finish_triple [OF after_wait [OF transfer_part0_disk [of files]] _ waited(3)]
  show ?thesis
    by (auto dest: catch_block_disk)
qed

lemma staging_removed_index:
  assumes "runBackupCycle_index cfg env files = Some (Inr out, s)"
  shows "(\<forall>p. localPath s = Some p \<longrightarrow> p \<notin> disk s) \<and> disk s \<subseteq> files"
  using assms
proof (cases rule: runBackupCycle_index_cases)
  case (create_failed e tr0)
  from create_failed(2) show ?thesis
    by (rule catch_block_disk) simp
next
  case (waited bid tr0 w ex tr)
  from finish_triple [OF after_wait [OF transfer_index_disk [of files]] _ waited(3)]
  show ?thesis
    by (auto dest: catch_block_disk)
qed

lemma catch_block_returns:
  "unlink_catch_ok env \<Longrightarrow> catch_block env err s = (r, s') \<Longrightarrow> r = Inr (Failed err)"
  by (auto simp: catch_block_def unlinkSync_def Let_def split: option.splits if_splits)

lemma finish_returns:
  assumes "unlink_catch_ok env" "finish env x = (r, s')"
  shows "\<exists>out. r = Inr out"
proof (cases x)
  case (Pair r0 s0)
  with assms show ?thesis
    by (cases r0) (auto simp: finish_def dest: catch_block_returns)
qed

lemma returns_index:
  assumes "unlink_catch_ok env" "runBackupCycle_index cfg env files = Some (r, s)"
  shows "\<exists>out. r = Inr out"
  using assms(2)
proof (cases rule: runBackupCycle_index_cases)
  case (create_failed e tr0)
  with assms(1) show ?thesis by (auto dest: catch_block_returns)
next
  case (waited bid tr0 w ex tr)
  from finish_returns [OF assms(1) waited(3)] show ?thesis .
qed

lemma returns_part0:
  assumes "unlink_catch_ok env" "runBackupCycle_part0 cfg env flag files = Some (r, s)"
  shows "\<exists>out. r = Inr out"
  using assms(2)
proof (cases rule: runBackupCycle_part0_cases)
  case (create_failed e tr0)
  with assms(1) show ?thesis by (auto dest: catch_block_returns)
next
  case (waited bid tr0 w ex tr)
  from finish_returns [OF assms(1) waited(3)] show ?thesis .
qed

text \<open>
  C3, as the code has it. Whenever \<^verbatim>\<open>runBackupCycle\<close> returns normally, after
  completion or after a failure at any step, the staging path it chose is not on disk,
  and no file is on disk that was not there before the cycle. This holds for the script
  of \<^verbatim>\<open>index.js\<close> and for the script with the archive flag. A cycle whose wait ends
  does return normally whenever the \<^verbatim>\<open>unlinkSync\<close> of the \<^verbatim>\<open>catch\<close> block does not
  throw; when it throws, nothing catches it, the function is left by that exception, and
  nothing is promised about the staging file.
\<close>

theorem C3_staging_file_removed:
  "(runBackupCycle_index cfg env files = Some (Inr out, s) \<longrightarrow>
      (\<forall>p. localPath s = Some p \<longrightarrow> p \<notin> disk s) \<and> disk s \<subseteq> files)
   \<and> (runBackupCycle_part0 cfg env flag files = Some (Inr out', s') \<longrightarrow>
      (\<forall>p. localPath s' = Some p \<longrightarrow> p \<notin> disk s') \<and> disk s' \<subseteq> files)
   \<and> (unlink_catch_ok env \<longrightarrow>
        runBackupCycle_index cfg env files \<noteq> Some (Inl e, s)
      \<and> runBackupCycle_part0 cfg env flag files \<noteq> Some (Inl e, s'))"
  using staging_removed_index [of cfg env files out s]
    staging_removed_part0 [of cfg env flag files out' s']
    returns_index [of env cfg files "Inl e" s] returns_part0 [of env cfg flag files "Inl e" s']
  by blast

text \<open>The primary upload fails after the download: both scripts report the failure,
  and the staging file is gone.\<close>

theorem C3_staging_file_removed_witness:
  "runBackupCycle_index cfg0 upload_fails {} =
     Some (Inr (Failed DriveError),
       \<lparr>trace = [PteroList, PteroCreate, Sleep 30000, PteroStatus ''job'',
                 PteroDownloadUrl ''job'', HttpDownload ''url'' staged,
                 DriveUpload staged ''main'' ''29-Nov-2PM.tar.gz'',
                 PteroDelete ''job'', Unlink staged],
        disk = {}, backupId = Some ''job'', localPath = Some staged\<rparr>)
   \<and> runBackupCycle_part0 cfg0 upload_fails False {} =
     Some (Inr (Failed DriveError),
       \<lparr>trace = [PteroList, PteroCreate, Sleep 30000, PteroStatus ''job'',
                 PteroDownloadUrl ''job'', HttpDownload ''url'' staged,
                 DriveUpload staged ''main'' ''29-Nov-2PM.tar.gz'',
                 PteroDelete ''job'', Unlink staged],
        disk = {}, backupId = Some ''job'', localPath = Some staged\<rparr>)
   \<and> staged \<notin> {}"
proof -
  let ?s = "\<lparr>trace = [PteroList, PteroCreate, Sleep 30000, PteroStatus ''job'',
                 PteroDownloadUrl ''job'', HttpDownload ''url'' staged,
                 DriveUpload staged ''main'' ''29-Nov-2PM.tar.gz'',
                 PteroDelete ''job'', Unlink staged],
        disk = {}, backupId = Some ''job'', localPath = Some staged\<rparr>"
  have a: "runBackupCycle_index cfg0 upload_fails {} = Some (Inr (Failed DriveError), ?s)"
    by (simp add: run_defs upload_fails_def)
  have b: "runBackupCycle_part0 cfg0 upload_fails False {} = Some (Inr (Failed DriveError), ?s)"
    by (simp add: run_defs upload_fails_def)
  have c: "unlink_catch_ok upload_fails"
    by (simp add: upload_fails_def calm_def)
  from C3_staging_file_removed
    [of cfg0 upload_fails "{}" "Failed DriveError" ?s False "Failed DriveError" ?s] a b c
  show ?thesis by simp
qed

text \<open>C3 as stated fails: the primary upload fails after the download, the
  \<^verbatim>\<open>unlinkSync\<close> of the \<^verbatim>\<open>catch\<close> block throws, and either script is left by that
  exception with the staging file still on disk.\<close>

theorem C3_counterexample:
  "runBackupCycle_index cfg0 (upload_fails\<lparr>unlink_catch_ok := False\<rparr>) {} =
     Some (Inl FsError,
       \<lparr>trace = [PteroList, PteroCreate, Sleep 30000, PteroStatus ''job'',
                 PteroDownloadUrl ''job'', HttpDownload ''url'' staged,
                 DriveUpload staged ''main'' ''29-Nov-2PM.tar.gz'',
                 PteroDelete ''job'', Unlink staged],
        disk = {staged}, backupId = Some ''job'', localPath = Some staged\<rparr>)
   \<and> runBackupCycle_part0 cfg0 (upload_fails\<lparr>unlink_catch_ok := False\<rparr>) False {} =
     Some (Inl FsError,
       \<lparr>trace = [PteroList, PteroCreate, Sleep 30000, PteroStatus ''job'',
                 PteroDownloadUrl ''job'', HttpDownload ''url'' staged,
                 DriveUpload staged ''main'' ''29-Nov-2PM.tar.gz'',
                 PteroDelete ''job'', Unlink staged],
        disk = {staged}, backupId = Some ''job'', localPath = Some staged\<rparr>)
   \<and> staged \<in> {staged}"
  by (simp add: run_defs upload_fails_def)

section \<open>What the calls leave in a trace\<close>

lemma job_deletes_simps [simp]:
  "job_deletes b [] = 0"
  "job_deletes b (a # tr) = (if a = PteroDelete b then 1 else 0) + job_deletes b tr"
  "job_deletes b (tr @ tr') = job_deletes b tr + job_deletes b tr'"
  by (simp_all add: job_deletes_def)

lemma filter_deleteEach:
  "(\<And>i. \<not> P (DriveDelete i)) \<Longrightarrow> deleteEach ok fs = (r, tr) \<Longrightarrow> filter P tr = []"
  by (induction fs arbitrary: r tr) (auto split: prod.splits if_splits)

lemma filter_cleanupOldBackups_part0:
  "(\<And>i. \<not> P (DriveDelete i)) \<Longrightarrow>
   filter P (snd (cleanupOldBackups_part0 env f m)) = filter P [DriveList f]"
  by (auto simp: cleanupOldBackups_part0_def split: option.splits prod.splits
      dest: filter_deleteEach [rotated])

lemma filter_cleanupOldBackups_index:
  "(\<And>i. \<not> P (DriveDelete i)) \<Longrightarrow>
   filter P (snd (cleanupOldBackups_index cfg env)) = filter P [DriveList (folderId cfg)]"
  by (auto simp: cleanupOldBackups_index_def split: option.splits prod.splits
      dest: filter_deleteEach [rotated])

lemma filter_cleanupOldDailyBackups:
  "(\<And>i. \<not> P (DriveDelete i)) \<Longrightarrow>
   filter P (snd (cleanupOldDailyBackups cfg env)) =
     (if daysFolderId cfg = [] then [] else filter P [DriveList (daysFolderId cfg)])"
  by (auto simp: cleanupOldDailyBackups_def split: option.splits prod.splits
      dest: filter_deleteEach [rotated])

lemma job_deletes_cleanup [simp]:
  "job_deletes b (snd (cleanupOldBackups_part0 env f m)) = 0"
  "job_deletes b (snd (cleanupOldBackups_index cfg env)) = 0"
  "job_deletes b (snd (cleanupOldDailyBackups cfg env)) = 0"
  unfolding job_deletes_def
  by (simp_all add: filter_cleanupOldBackups_part0 filter_cleanupOldBackups_index
      filter_cleanupOldDailyBackups)

lemma drive_calls_cleanup [simp]:
  "filter is_drive_call (snd (cleanupOldBackups_part0 env f m)) = [DriveList f]"
  "filter is_drive_call (snd (cleanupOldBackups_index cfg env)) = [DriveList (folderId cfg)]"
  "filter is_drive_call (snd (cleanupOldDailyBackups cfg env)) =
     (if daysFolderId cfg = [] then [] else [DriveList (daysFolderId cfg)])"
  by (simp_all add: filter_cleanupOldBackups_part0 filter_cleanupOldBackups_index
      filter_cleanupOldDailyBackups)

lemma simple_calls [simp]:
  "snd (getBackupDownloadUrl env b) = [PteroDownloadUrl b]"
  "deleteBackupFromPtero ok b = (Inr (), [PteroDelete b])"
  "snd (uploadToGoogleDrive_part0 env p f n) = [DriveUpload p f n]"
  "snd (uploadToGoogleDrive_index cfg env p) =
     [DriveUpload p (folderId cfg) (mainFileName (dayjs_upload env))]"
  "snd (uploadToDaysFolder cfg env p) =
     (if daysFolderId cfg = [] then []
      else [DriveUpload p (daysFolderId cfg) (dailyFileName (dayjs_daysupload env))])"
  by (simp_all add: getBackupDownloadUrl_def deleteBackupFromPtero_def Let_def
      uploadToGoogleDrive_part0_def uploadToGoogleDrive_index_def uploadToDaysFolder_def
      split: option.splits)

text \<open>The poll loop only reads the status and sleeps.\<close>

lemma poll_loop_trace:
  assumes "poll_loop cfg obs bid n now tr = Some y"
  shows "\<forall>a\<in>set (snd (snd y)). a \<in> set tr \<or> a = PteroStatus bid \<or> a = Sleep (pollInterval cfg)"
proof (rule poll_loop.raw_induct
    [where P = "\<lambda>cfg _ bid _ _ tr y. \<forall>a\<in>set (snd (snd y)).
         a \<in> set tr \<or> a = PteroStatus bid \<or> a = Sleep (pollInterval cfg)", OF _ assms],
    goal_cases)
  case prems: (1 f cfg obs bid n now tr y)
  show ?case
    using prems(2)
    by (auto simp: Let_def split: if_splits option.splits dest!: prems(1))
qed

lemma filter_wait:
  assumes "waitForBackupCompletion cfg env bid = Some (w, ex, tr)"
    and "\<And>b. \<not> P (PteroStatus b)" "\<And>d. \<not> P (Sleep d)"
  shows "filter P tr = []"
proof -
  have "\<forall>a\<in>set tr. a \<in> set [Sleep (initialDelay cfg)] \<or> a = PteroStatus bid
        \<or> a = Sleep (pollInterval cfg)"
    using poll_loop_trace [OF assms(1) [unfolded waitForBackupCompletion_def]] by simp
  then show ?thesis using assms(2,3) by (auto simp: filter_empty_conv)
qed

lemma job_deletes_wait:
  "waitForBackupCompletion cfg env bid = Some (w, ex, tr) \<Longrightarrow> job_deletes b tr = 0"
  unfolding job_deletes_def by (simp add: filter_wait)

lemma filter_createBackup:
  assumes "\<And>b. \<not> P (PteroDelete b)" "\<not> P PteroList" "\<not> P PteroCreate" "\<And>d. \<not> P (Sleep d)"
  shows "filter P (snd (createBackup_index cfg env)) = []"
    and "filter P (snd (createBackup_part0 env)) = []"
  using assms
  by (auto simp: createBackup_index_def createBackup_part0_def deleteOldestPteroBackup_def
      deleteOldestBackupIfLimitReached_def split: option.splits list.splits prod.splits sum.splits)

section \<open>Delete requests for the job\<close>

lemma transfer_part0_deletes:
  "triple (\<lambda>s. backupId s = Some bid \<and> (\<exists>R. trace s = T @ R \<and> job_deletes bid R = 0))
     (transfer_part0 cfg env flag bid)
     (\<lambda>_ s'. \<exists>R. trace s' = T @ R \<and> job_deletes bid R = 1)
     (\<lambda>_ s'. backupId s' = Some bid \<and>
        (\<exists>R. trace s' = T @ R \<and> job_deletes bid R \<le> 1
              \<and> (unlink_ok env \<longrightarrow> job_deletes bid R = 0)))"
  unfolding transfer_part0_def
  apply (rule triple_pre)
   apply (rule wp_rules)+
  apply (auto simp: )
  done

lemma transfer_index_deletes:
  "triple (\<lambda>s. backupId s = Some bid \<and> (\<exists>R. trace s = T @ R \<and> job_deletes bid R = 0))
     (transfer_index cfg env bid)
     (\<lambda>_ s'. \<exists>R. trace s' = T @ R \<and> job_deletes bid R = 1)
     (\<lambda>_ s'. backupId s' = Some bid \<and>
        (\<exists>R. trace s' = T @ R \<and> job_deletes bid R \<le> 1
              \<and> (unlink_ok env \<and> fst (cleanupOldBackups_index cfg env) = Inr ()
                   \<longrightarrow> job_deletes bid R = 0)))"
  unfolding transfer_index_def
  apply (rule triple_pre)
   apply (rule wp_rules)+
  apply (auto simp: )
  done

lemma catch_block_deletes:
  assumes "catch_block env err s = (out, s')" "backupId s = Some bid" "bid \<noteq> []"
    "trace s = T @ R"
  shows "out \<noteq> Inr Completed \<and>
    (\<exists>R'. trace s' = T @ R' \<and> job_deletes bid R' = job_deletes bid R + 1)"
  using assms
  by (auto simp: catch_block_def call_def unlinkSync_def truthy_def Let_def
      split: option.splits if_splits)

lemma job_deleted_part0:
  assumes run: "runBackupCycle_part0 cfg env flag files = Some (out, s)"
    and cb: "createBackup_part0 env = (Inr bid, tr0)" and ne: "bid \<noteq> []"
  shows "\<exists>rest. trace s = tr0 @ rest \<and> 1 \<le> job_deletes bid rest \<and> job_deletes bid rest \<le> 2
     \<and> (out = Inr Completed \<longrightarrow> job_deletes bid rest = 1)
     \<and> (unlink_ok env \<longrightarrow> job_deletes bid rest = 1)"
  using run
proof (cases rule: runBackupCycle_part0_cases)
  case (create_failed e tr0')
  with cb show ?thesis by simp
next
  case (waited bid' tr0' w ex tr)
  with cb have eq: "bid' = bid" "tr0' = tr0" by simp_all
  note jw = job_deletes_wait [OF waited(2) [unfolded eq], of bid]
  from finish_triple [OF after_wait [OF transfer_part0_deletes [of bid tr0]] _
      waited(3) [unfolded eq]] jw
  consider (ok) "out = Inr Completed" "\<exists>R. trace s = tr0 @ R \<and> job_deletes bid R = 1"
    | (caught) e s' R where "backupId s' = Some bid" "trace s' = tr0 @ R"
        "job_deletes bid R \<le> 1" "unlink_ok env \<longrightarrow> job_deletes bid R = 0"
        "catch_block env e s' = (out, s)"
    by auto
  then show ?thesis
  proof cases
    case ok
    then show ?thesis by auto
  next
    case caught
    from catch_block_deletes [OF caught(5) caught(1) ne caught(2)] caught(3,4)
    show ?thesis by auto
  qed
qed

lemma job_deleted_index:
  assumes run: "runBackupCycle_index cfg env files = Some (out, s)"
    and cb: "createBackup_index cfg env = (Inr bid, tr0)" and ne: "bid \<noteq> []"
  shows "\<exists>rest. trace s = tr0 @ rest \<and> 1 \<le> job_deletes bid rest \<and> job_deletes bid rest \<le> 2
     \<and> (out = Inr Completed \<longrightarrow> job_deletes bid rest = 1)
     \<and> (unlink_ok env \<and> fst (cleanupOldBackups_index cfg env) = Inr ()
          \<longrightarrow> job_deletes bid rest = 1)"
  using run
proof (cases rule: runBackupCycle_index_cases)
  case (create_failed e tr0')
  with cb show ?thesis by simp
next
  case (waited bid' tr0' w ex tr)
  with cb have eq: "bid' = bid" "tr0' = tr0" by simp_all
  note jw = job_deletes_wait [OF waited(2) [unfolded eq], of bid]
  from finish_triple [OF after_wait [OF transfer_index_deletes [of bid tr0]] _
      waited(3) [unfolded eq]] jw
  consider (ok) "out = Inr Completed" "\<exists>R. trace s = tr0 @ R \<and> job_deletes bid R = 1"
    | (caught) e s' R where "backupId s' = Some bid" "trace s' = tr0 @ R"
        "job_deletes bid R \<le> 1"
        "unlink_ok env \<and> fst (cleanupOldBackups_index cfg env) = Inr ()
           \<longrightarrow> job_deletes bid R = 0"
        "catch_block env e s' = (out, s)"
    by auto
  then show ?thesis
  proof cases
    case ok
    then show ?thesis by auto
  next
    case caught
    from catch_block_deletes [OF caught(5) caught(1) ne caught(2)] caught(3,4)
    show ?thesis by auto
  qed
qed

lemma catch_block_trace:
  assumes "catch_block env err s = (out, s')"
  shows "out \<noteq> Inr Completed \<and>
     (\<exists>u. trace s' = trace s @ u \<and> filter is_drive_call u = [])"
  using assms
  by (auto simp: catch_block_def call_def unlinkSync_def truthy_def Let_def
      split: option.splits if_splits)

section \<open>Rotation failures\<close>

lemma transfer_index_completed:
  "triple (\<lambda>s. True) (transfer_index cfg env bid)
     (\<lambda>_ s'. fst (cleanupOldBackups_index cfg env) = Inr ())
     (\<lambda>_ s'. True)"
  unfolding transfer_index_def
  apply (rule triple_pre)
   apply (rule wp_rules)+
  apply auto
  done

lemma transfer_part0_completed:
  "triple (\<lambda>s. True) (transfer_part0 cfg env flag bid)
     (\<lambda>_ s'. fst (cleanupOldBackups_part0 env (folderId cfg) (maxBackups cfg)) = Inr ()
        \<and> (flag \<and> daysFolderId cfg \<noteq> [] \<longrightarrow>
             fst (cleanupOldBackups_part0 env (daysFolderId cfg) (maxDailyBackups cfg)) = Inr ()))
     (\<lambda>_ s'. True)"
  unfolding transfer_part0_def
  apply (rule triple_pre)
   apply (rule wp_rules)+
  apply auto
  done

lemma completed_index:
  assumes "runBackupCycle_index cfg env files = Some (Inr Completed, s)"
  shows "fst (cleanupOldBackups_index cfg env) = Inr ()"
  using assms
proof (cases rule: runBackupCycle_index_cases)
  case (create_failed e tr0)
  then show ?thesis by (auto dest: catch_block_trace)
next
  case (waited bid tr0 w ex tr)
  from finish_triple [OF after_wait [OF transfer_index_completed] _ waited(3)]
  show ?thesis by (auto dest: catch_block_trace)
qed

lemma completed_part0:
  assumes "runBackupCycle_part0 cfg env flag files = Some (Inr Completed, s)"
  shows "fst (createBackup_part0 env) \<noteq> Inl e
     \<and> fst (cleanupOldBackups_part0 env (folderId cfg) (maxBackups cfg)) = Inr ()
     \<and> (flag \<and> daysFolderId cfg \<noteq> [] \<longrightarrow>
          fst (cleanupOldBackups_part0 env (daysFolderId cfg) (maxDailyBackups cfg)) = Inr ())"
  using assms
proof (cases rule: runBackupCycle_part0_cases)
  case (create_failed e tr0)
  then show ?thesis by (auto dest: catch_block_trace)
next
  case (waited bid tr0 w ex tr)
  from finish_triple [OF after_wait [OF transfer_part0_completed] _ waited(3)] waited(1)
  show ?thesis by (auto dest: catch_block_trace)
qed

lemma deleteEach_first_failure:
  "k < length fs \<Longrightarrow> \<not> ok (file_id (fs ! k)) \<Longrightarrow>
   (\<forall>j<k. ok (file_id (fs ! j))) \<Longrightarrow>
   deleteEach ok fs = (Inl DriveError, map (\<lambda>f. DriveDelete (file_id f)) (take (Suc k) fs))"
proof (induction fs arbitrary: k)
  case Nil
  then show ?case by simp
next
  case (Cons f fs)
  show ?case
  proof (cases k)
    case 0
    with Cons.prems show ?thesis by simp
  next
    case (Suc k')
    from Cons.prems Suc have h0: "ok (file_id f)" by auto
    from Cons.prems Suc have "k' < length fs" "\<not> ok (file_id (fs ! k'))"
      "\<forall>j<k'. ok (file_id (fs ! j))" by auto
    from Cons.IH [OF this] h0 Suc show ?thesis by simp
  qed
qed

lemma eager_failure_part0:
  assumes "fst (deleteOldestBackupIfLimitReached env) = Inl e"
  shows "runBackupCycle_part0 cfg env flag files =
     Some (Inr (Failed e),
       \<lparr>trace = snd (deleteOldestBackupIfLimitReached env), disk = files,
        backupId = None, localPath = None\<rparr>)"
  using assms
  by (cases "deleteOldestBackupIfLimitReached env")
     (simp add: runBackupCycle_part0_def createBackup_part0_def call_def initial_state_def
       catch_block_def)

section \<open>Drive calls\<close>

lemma transfer_part0_drive:
  "triple (\<lambda>s. filter is_drive_call (trace s) = [])
     (transfer_part0 cfg env flag bid)
     (\<lambda>_ s'. filter is_drive_call (trace s') =
         [DriveUpload (path_join (tempDir cfg) (tempFileName (dayjs_start env))) (folderId cfg)
            (mainFileName (dayjs_start env)),
          DriveList (folderId cfg)] @
         (if flag \<and> daysFolderId cfg \<noteq> []
          then [DriveUpload (path_join (tempDir cfg) (tempFileName (dayjs_start env)))
                  (daysFolderId cfg) (dailyFileName (dayjs_start env)),
                DriveList (daysFolderId cfg)]
          else []))
     (\<lambda>_ s'. prefix (filter is_drive_call (trace s'))
        ([DriveUpload (path_join (tempDir cfg) (tempFileName (dayjs_start env))) (folderId cfg)
            (mainFileName (dayjs_start env)),
          DriveList (folderId cfg)] @
         (if flag \<and> daysFolderId cfg \<noteq> []
          then [DriveUpload (path_join (tempDir cfg) (tempFileName (dayjs_start env)))
                  (daysFolderId cfg) (dailyFileName (dayjs_start env)),
                DriveList (daysFolderId cfg)]
          else [])))"
  unfolding transfer_part0_def
  apply (rule triple_pre)
   apply (rule wp_rules)+
  apply auto
  done

lemma transfer_index_drive:
  "triple (\<lambda>s. filter is_drive_call (trace s) = [])
     (transfer_index cfg env bid)
     (\<lambda>_ s'. filter is_drive_call (trace s') =
         [DriveUpload (path_join (tempDir cfg) (tempFileName (dayjs_staging env))) (folderId cfg)
            (mainFileName (dayjs_upload env))] @
         (if isDailyBackupTime (dayjs_dailycheck env) \<and> daysFolderId cfg \<noteq> []
          then [DriveUpload (path_join (tempDir cfg) (tempFileName (dayjs_staging env)))
                  (daysFolderId cfg) (dailyFileName (dayjs_daysupload env)),
                DriveList (daysFolderId cfg)]
          else []) @
         [DriveList (folderId cfg)])
     (\<lambda>_ s'. prefix (filter is_drive_call (trace s'))
        ([DriveUpload (path_join (tempDir cfg) (tempFileName (dayjs_staging env))) (folderId cfg)
            (mainFileName (dayjs_upload env))] @
         (if isDailyBackupTime (dayjs_dailycheck env) \<and> daysFolderId cfg \<noteq> []
          then [DriveUpload (path_join (tempDir cfg) (tempFileName (dayjs_staging env)))
                  (daysFolderId cfg) (dailyFileName (dayjs_daysupload env)),
                DriveList (daysFolderId cfg)]
          else []) @
         [DriveList (folderId cfg)]))"
  unfolding transfer_index_def
  apply (rule triple_pre)
   apply (rule wp_rules)+
  apply auto
  done

lemma not_drive_calls [simp]:
  "filter is_drive_call (snd (createBackup_index cfg env)) = []"
  "filter is_drive_call (snd (createBackup_part0 env)) = []"
  by (simp_all add: filter_createBackup)

lemma drive_calls_part0:
  assumes run: "runBackupCycle_part0 cfg env flag files = Some (out, s)"
  shows "prefix (filter is_drive_call (trace s))
        ([DriveUpload (path_join (tempDir cfg) (tempFileName (dayjs_start env))) (folderId cfg)
            (mainFileName (dayjs_start env)),
          DriveList (folderId cfg)] @
         (if flag \<and> daysFolderId cfg \<noteq> []
          then [DriveUpload (path_join (tempDir cfg) (tempFileName (dayjs_start env)))
                  (daysFolderId cfg) (dailyFileName (dayjs_start env)),
                DriveList (daysFolderId cfg)]
          else []))
     \<and> (out = Inr Completed \<longrightarrow> filter is_drive_call (trace s) =
         [DriveUpload (path_join (tempDir cfg) (tempFileName (dayjs_start env))) (folderId cfg)
            (mainFileName (dayjs_start env)),
          DriveList (folderId cfg)] @
         (if flag \<and> daysFolderId cfg \<noteq> []
          then [DriveUpload (path_join (tempDir cfg) (tempFileName (dayjs_start env)))
                  (daysFolderId cfg) (dailyFileName (dayjs_start env)),
                DriveList (daysFolderId cfg)]
          else []))"
  using run
proof (cases rule: runBackupCycle_part0_cases)
  case (create_failed e tr0)
  from create_failed(1) have "filter is_drive_call tr0 = []"
    using not_drive_calls(2) [of env] by simp
  with catch_block_trace [OF create_failed(2)] show ?thesis by auto
next
  case (waited bid tr0 w ex tr)
  from waited(1) have t0: "filter is_drive_call tr0 = []"
    using not_drive_calls(2) [of env] by simp
  have t1: "filter is_drive_call tr = []"
    by (rule filter_wait [OF waited(2)]) simp_all
  from finish_triple [OF after_wait [OF transfer_part0_drive] _ waited(3)] t0 t1
  show ?thesis by (auto dest!: catch_block_trace)
qed

lemma drive_calls_index:
  assumes run: "runBackupCycle_index cfg env files = Some (out, s)"
  shows "prefix (filter is_drive_call (trace s))
        ([DriveUpload (path_join (tempDir cfg) (tempFileName (dayjs_staging env))) (folderId cfg)
            (mainFileName (dayjs_upload env))] @
         (if isDailyBackupTime (dayjs_dailycheck env) \<and> daysFolderId cfg \<noteq> []
          then [DriveUpload (path_join (tempDir cfg) (tempFileName (dayjs_staging env)))
                  (daysFolderId cfg) (dailyFileName (dayjs_daysupload env)),
                DriveList (daysFolderId cfg)]
          else []) @
         [DriveList (folderId cfg)])
     \<and> (out = Inr Completed \<longrightarrow> filter is_drive_call (trace s) =
         [DriveUpload (path_join (tempDir cfg) (tempFileName (dayjs_staging env))) (folderId cfg)
            (mainFileName (dayjs_upload env))] @
         (if isDailyBackupTime (dayjs_dailycheck env) \<and> daysFolderId cfg \<noteq> []
          then [DriveUpload (path_join (tempDir cfg) (tempFileName (dayjs_staging env)))
                  (daysFolderId cfg) (dailyFileName (dayjs_daysupload env)),
                DriveList (daysFolderId cfg)]
          else []) @
         [DriveList (folderId cfg)])"
  using run
proof (cases rule: runBackupCycle_index_cases)
  case (create_failed e tr0)
  from create_failed(1) have "filter is_drive_call tr0 = []"
    using not_drive_calls(1) [of cfg env] by simp
  with catch_block_trace [OF create_failed(2)] show ?thesis by auto
next
  case (waited bid tr0 w ex tr)
  from waited(1) have t0: "filter is_drive_call tr0 = []"
    using not_drive_calls(1) [of cfg env] by simp
  have t1: "filter is_drive_call tr = []"
    by (rule filter_wait [OF waited(2)]) simp_all
  from finish_triple [OF after_wait [OF transfer_index_drive] _ waited(3)] t0 t1
  show ?thesis by (auto dest!: catch_block_trace)
qed

section \<open>A cycle in which nothing fails\<close>

lemma transfer_part0_succeeds:
  assumes "downloadUrl_result env \<noteq> None" "download_result env = DlOk"
    "driveUpload_ok env (folderId cfg)"
    "fst (cleanupOldBackups_part0 env (folderId cfg) (maxBackups cfg)) = Inr ()"
    "unlink_ok env" "\<not> (flag \<and> daysFolderId cfg \<noteq> [])"
  shows "triple (\<lambda>s. True) (transfer_part0 cfg env flag bid) (\<lambda>_ s'. True) (\<lambda>_ s'. False)"
  unfolding transfer_part0_def
  apply (rule triple_pre)
   apply (rule wp_rules)+
  using assms
  apply (auto simp: getBackupDownloadUrl_def uploadToGoogleDrive_part0_def split: option.splits)
  done

lemma transfer_index_succeeds:
  assumes "downloadUrl_result env \<noteq> None" "download_result env = DlOk"
    "driveUpload_ok env (folderId cfg)"
    "fst (cleanupOldBackups_index cfg env) = Inr ()"
    "unlink_ok env" "daysFolderId cfg = []"
  shows "triple (\<lambda>s. True) (transfer_index cfg env bid) (\<lambda>_ s'. True) (\<lambda>_ s'. False)"
  unfolding transfer_index_def
  apply (rule triple_pre)
   apply (rule wp_rules)+
  using assms
  apply (auto simp: getBackupDownloadUrl_def uploadToGoogleDrive_index_def
      uploadToDaysFolder_def cleanupOldDailyBackups_def Let_def split: option.splits)
  done

lemma run_part0:
  assumes "createBackup_part0 env = (Inr bid, tr0)"
    "waitForBackupCompletion cfg env bid = Some (w, ex, tr)"
  shows "\<exists>out s. runBackupCycle_part0 cfg env flag files = Some (out, s)
     \<and> finish env (andThen (call (w, tr)) (\<lambda>_. transfer_part0 cfg env flag bid)
         \<lparr>trace = tr0, disk = files, backupId = Some bid, localPath = None\<rparr>) = (out, s)"
  using assms
  by (simp add: runBackupCycle_part0_def call_def initial_state_def)

lemma run_index:
  assumes "createBackup_index cfg env = (Inr bid, tr0)"
    "waitForBackupCompletion cfg env bid = Some (w, ex, tr)"
  shows "\<exists>out s. runBackupCycle_index cfg env files = Some (out, s)
     \<and> finish env (andThen (call (w, tr)) (\<lambda>_. transfer_index cfg env bid)
         \<lparr>trace = tr0, disk = files, backupId = Some bid, localPath = None\<rparr>) = (out, s)"
  using assms
  by (simp add: runBackupCycle_index_def call_def initial_state_def)

lemma succeeds_part0:
  assumes "createBackup_part0 env = (Inr bid, tr0)"
    "waitForBackupCompletion cfg env bid = Some (Inr b, ex, tr)"
    "downloadUrl_result env \<noteq> None" "download_result env = DlOk"
    "driveUpload_ok env (folderId cfg)"
    "fst (cleanupOldBackups_part0 env (folderId cfg) (maxBackups cfg)) = Inr ()"
    "unlink_ok env" "\<not> (flag \<and> daysFolderId cfg \<noteq> [])"
  shows "\<exists>s. runBackupCycle_part0 cfg env flag files = Some (Inr Completed, s)"
proof -
  from run_part0 [OF assms(1,2)] obtain out s where
    r: "runBackupCycle_part0 cfg env flag files = Some (out, s)"
    and f: "finish env (andThen (call (Inr b, tr)) (\<lambda>_. transfer_part0 cfg env flag bid)
         \<lparr>trace = tr0, disk = files, backupId = Some bid, localPath = None\<rparr>) = (out, s)"
    by blast
  from finish_triple [OF after_wait [OF transfer_part0_succeeds [OF assms(3-8)]] _ f]
  have "out = Inr Completed" by auto
  with r show ?thesis by blast
qed

lemma succeeds_index:
  assumes "createBackup_index cfg env = (Inr bid, tr0)"
    "waitForBackupCompletion cfg env bid = Some (Inr b, ex, tr)"
    "downloadUrl_result env \<noteq> None" "download_result env = DlOk"
    "driveUpload_ok env (folderId cfg)"
    "fst (cleanupOldBackups_index cfg env) = Inr ()"
    "unlink_ok env" "daysFolderId cfg = []"
  shows "\<exists>s. runBackupCycle_index cfg env files = Some (Inr Completed, s)"
proof -
  from run_index [OF assms(1,2)] obtain out s where
    r: "runBackupCycle_index cfg env files = Some (out, s)"
    and f: "finish env (andThen (call (Inr b, tr)) (\<lambda>_. transfer_index cfg env bid)
         \<lparr>trace = tr0, disk = files, backupId = Some bid, localPath = None\<rparr>) = (out, s)"
    by blast
  from finish_triple [OF after_wait [OF transfer_index_succeeds [OF assms(3-8)]] _ f]
  have "out = Inr Completed" by auto
  with r show ?thesis by blast
qed

section \<open>After the wait\<close>

lemma transfer_index_asks_url:
  "triple (\<lambda>s. True) (transfer_index cfg env bid)
     (\<lambda>_ s'. PteroDownloadUrl bid \<in> set (trace s'))
     (\<lambda>_ s'. PteroDownloadUrl bid \<in> set (trace s'))"
  unfolding transfer_index_def
  apply (rule triple_pre)
   apply (rule wp_rules)+
  apply auto
  done

lemma proceeds_to_download:
  assumes "createBackup_index cfg env = (Inr bid, tr0)"
    "waitForBackupCompletion cfg env bid = Some (Inr b, ex, tr)"
  shows "\<exists>out s. runBackupCycle_index cfg env files = Some (out, s)
     \<and> PteroDownloadUrl bid \<in> set (trace s)"
proof -
  from run_index [OF assms(1,2)] obtain out s where
    r: "runBackupCycle_index cfg env files = Some (out, s)"
    and f: "finish env (andThen (call (Inr b, tr)) (\<lambda>_. transfer_index cfg env bid)
         \<lparr>trace = tr0, disk = files, backupId = Some bid, localPath = None\<rparr>) = (out, s)"
    by blast
  from finish_triple [OF after_wait [OF transfer_index_asks_url] _ f]
  have "PteroDownloadUrl bid \<in> set (trace s)" by (auto dest!: catch_block_trace)
  with r show ?thesis by blast
qed

section \<open>Rotation\<close>

lemma deleteEach_all_ok:
  "\<forall>f\<in>set fs. ok (file_id f) \<Longrightarrow>
   deleteEach ok fs = (Inr (), map (\<lambda>f. DriveDelete (file_id f)) fs)"
  by (induction fs) auto

lemma filesToDelete_drop: "filesToDelete files m = drop m files"
  by (simp add: filesToDelete_def)

lemma cleanup_part0_all_ok:
  assumes "driveList_result env folder = Some files"
    "\<forall>f\<in>set files. driveDelete_ok env (file_id f)"
  shows "cleanupOldBackups_part0 env folder m =
     (Inr (), DriveList folder # map (\<lambda>f. DriveDelete (file_id f)) (drop m files))"
proof -
  have "\<forall>f\<in>set (drop m files). driveDelete_ok env (file_id f)"
    using assms(2) by (meson in_set_dropD)
  from deleteEach_all_ok [OF this] assms(1) show ?thesis
    by (simp add: cleanupOldBackups_part0_def filesToDelete_drop)
qed

lemma newest_first_split:
  assumes "sorted_wrt (\<lambda>a b. createdTime b \<le> createdTime a) files"
  shows "\<forall>d\<in>set (drop m files). \<forall>k\<in>set (take m files). createdTime d \<le> createdTime k"
proof -
  have "sorted_wrt (\<lambda>a b. createdTime b \<le> createdTime a) (take m files @ drop m files)"
    using assms by simp
  then show ?thesis unfolding sorted_wrt_append by blast
qed

lemma hd_sort_key_least:
  assumes "xs \<noteq> []"
  shows "\<exists>y ys. sort_key f xs = y # ys \<and> y \<in> set xs \<and> (\<forall>x\<in>set xs. f y \<le> f x)"
proof -
  let ?ys = "sort_key f xs"
  have ne: "?ys \<noteq> []" using assms by (metis length_sort list.size(3) length_0_conv)
  then obtain y ys where ys: "?ys = y # ys" by (cases ?ys) auto
  have s: "sorted (map f ?ys)" by (rule sorted_sort_key)
  have st: "set ?ys = set xs" by simp
  have "y \<in> set xs" using ys st by (metis list.set_intros(1))
  moreover have "\<forall>x\<in>set xs. f y \<le> f x"
  proof
    fix x assume "x \<in> set xs"
    then have "x \<in> set (y # ys)" using st ys by simp
    then show "f y \<le> f x" using s ys by auto
  qed
  ultimately show ?thesis using ys by blast
qed

lemma eager_index:
  assumes "listBackups_result env = Some backups"
  shows "(length backups < maxBackupsOnServer cfg \<longrightarrow>
            filter is_ptero_delete (snd (deleteOldestPteroBackup cfg env)) = [])
       \<and> (maxBackupsOnServer cfg \<le> length backups \<and> backups \<noteq> [] \<longrightarrow>
            (\<exists>b\<in>set backups. (\<forall>x\<in>set backups. createdAt b \<le> createdAt x)
               \<and> filter is_ptero_delete (snd (deleteOldestPteroBackup cfg env))
                   = [PteroDelete (backup_id b)]))"
proof (cases "backups = []")
  case True
  with assms show ?thesis by (simp add: deleteOldestPteroBackup_def)
next
  case False
  from hd_sort_key_least [OF False, of createdAt] obtain y ys where
    "sort_key createdAt backups = y # ys" "y \<in> set backups"
    "\<forall>x\<in>set backups. createdAt y \<le> createdAt x" by blast
  with assms show ?thesis
    by (auto simp: deleteOldestPteroBackup_def)
qed

lemma eager_part0:
  assumes "listBackups_result env = Some backups"
  shows "(length backups < 3 \<longrightarrow>
            filter is_ptero_delete (snd (deleteOldestBackupIfLimitReached env)) = [])
       \<and> (3 \<le> length backups \<longrightarrow>
            (\<exists>b\<in>set backups. (\<forall>x\<in>set backups. createdAt b \<le> createdAt x)
               \<and> filter is_ptero_delete (snd (deleteOldestBackupIfLimitReached env))
                   = [PteroDelete (backup_id b)]))"
proof (cases "backups = []")
  case True
  with assms show ?thesis by (simp add: deleteOldestBackupIfLimitReached_def)
next
  case False
  from hd_sort_key_least [OF False, of createdAt] obtain y ys where
    "sort_key createdAt backups = y # ys" "y \<in> set backups"
    "\<forall>x\<in>set backups. createdAt y \<le> createdAt x" by blast
  with assms show ?thesis
    by (auto simp: deleteOldestBackupIfLimitReached_def)
qed

section \<open>The poll loop\<close>

lemma poll_loop_exits:
  assumes "poll_loop cfg obs bid n now tr = Some y"
  shows "(fst y = Inl BackupFailed \<longrightarrow> 60 < elapsed (fst (snd y)))
       \<and> (fst y = Inl BackupTimeout \<longrightarrow> pollTimeout cfg < since_start (fst (snd y)))"
proof (rule poll_loop.raw_induct
    [where P = "\<lambda>cfg _ _ _ _ _ y.
        (fst y = Inl BackupFailed \<longrightarrow> 60 < elapsed (fst (snd y)))
      \<and> (fst y = Inl BackupTimeout \<longrightarrow> pollTimeout cfg < since_start (fst (snd y)))",
      OF _ assms],
    goal_cases)
  case prems: (1 f cfg obs bid n now tr y)
  show ?case
    using prems(2)
    by (auto simp: Let_def split: if_splits option.splits dest: prems(1))
qed

lemma poll_loop_not_late:
  assumes "poll_loop cfg obs bid n now tr = Some y"
  shows "(\<forall>i. lag (obs i) + gap (obs i) + latency (obs i) \<le> D) \<longrightarrow>
         now \<le> pollTimeout cfg + pollInterval cfg + D \<longrightarrow>
         fst y = Inl BackupTimeout \<longrightarrow>
         since_start (fst (snd y)) \<le> pollTimeout cfg + pollInterval cfg + 2 * D"
proof (rule poll_loop.raw_induct
    [where P = "\<lambda>cfg obs _ _ now _ y.
        (\<forall>i. lag (obs i) + gap (obs i) + latency (obs i) \<le> D) \<longrightarrow>
         now \<le> pollTimeout cfg + pollInterval cfg + D \<longrightarrow>
         fst y = Inl BackupTimeout \<longrightarrow>
         since_start (fst (snd y)) \<le> pollTimeout cfg + pollInterval cfg + 2 * D",
      OF _ assms],
    goal_cases)
  case prems: (1 f cfg obs bid n now tr y)
  show ?case
  proof (intro impI)
    assume D: "\<forall>i. lag (obs i) + gap (obs i) + latency (obs i) \<le> D"
      and now: "now \<le> pollTimeout cfg + pollInterval cfg + D"
      and t: "fst y = Inl BackupTimeout"
    from D have Dn: "lag (obs n) + gap (obs n) + latency (obs n) \<le> D" by blast
    show "since_start (fst (snd y)) \<le> pollTimeout cfg + pollInterval cfg + 2 * D"
    proof (cases "pollTimeout cfg < now + lag (obs n) + gap (obs n)")
      case True
      with prems(2) have "since_start (fst (snd y)) = now + lag (obs n) + gap (obs n)"
        by (auto simp: Let_def)
      with now Dn show ?thesis by simp
    next
      case False
      then have le: "now + lag (obs n) + gap (obs n) \<le> pollTimeout cfg" by simp
      have n1: "now + lag (obs n) + gap (obs n) + latency (obs n) + pollInterval cfg
                  \<le> pollTimeout cfg + pollInterval cfg + D"
        using le Dn by simp
      have n2: "now + lag (obs n) + gap (obs n) + latency (obs n)
                  \<le> pollTimeout cfg + pollInterval cfg + D"
        using le Dn by simp
      from prems(2) False t show ?thesis
        using prems(1) D n1 n2
        by (auto simp: Let_def split: if_splits option.splits)
    qed
  qed
qed

text \<open>Readings that are not a completed success keep the loop running until an exit.\<close>

lemma poll_loop_terminates:
  assumes pos: "0 < pollInterval cfg"
    and obs: "\<forall>i. \<exists>b. resp (obs i) = Some b
                \<and> \<not> (is_successful b = Some True \<and> truthy (completed_at b))
                \<and> (is_successful b = Some True \<longrightarrow> 0 < lag (obs i) + gap (obs i) + latency (obs i))"
  shows "\<exists>e ex tr'. poll_loop cfg obs bid n now tr = Some (Inl e, ex, tr')
            \<and> (e = BackupTimeout
                \<or> e = BackupFailed \<and> (\<exists>i b. resp (obs i) = Some b \<and> is_successful b = Some False))"
proof (induction "pollTimeout cfg + 1 - now" arbitrary: n now tr rule: less_induct)
  case less
  from obs obtain b where b: "resp (obs n) = Some b"
    "\<not> (is_successful b = Some True \<and> truthy (completed_at b))"
    "is_successful b = Some True \<longrightarrow> 0 < lag (obs n) + gap (obs n) + latency (obs n)"
    by blast
  show ?case
  proof (cases "pollTimeout cfg < now + lag (obs n) + gap (obs n)")
    case True
    then show ?thesis
      by (subst poll_loop.simps) (simp add: Let_def)
  next
    case False
    show ?thesis
    proof (cases "is_successful b = None \<or> (is_successful b = Some False
                    \<and> (now + lag (obs n) + 500) div 1000 \<le> 60)")
      case True
      have "pollTimeout cfg + 1
              - (now + lag (obs n) + gap (obs n) + latency (obs n) + pollInterval cfg)
            < pollTimeout cfg + 1 - now"
        using False pos by simp
      from less [OF this, of "n + 1" "tr @ [PteroStatus bid] @ [Sleep (pollInterval cfg)]"]
      show ?thesis
        using False True b
        by (subst poll_loop.simps) (auto simp: Let_def)
    next
      case nosleep: False
      show ?thesis
      proof (cases "is_successful b = Some False")
        case True
        with False nosleep b show ?thesis
          by (subst poll_loop.simps) (auto simp: Let_def)
      next
        case nf: False
        with nosleep have st: "is_successful b = Some True"
          by (cases "is_successful b") auto
        with b(3) have "0 < lag (obs n) + gap (obs n) + latency (obs n)" by simp
        then have "pollTimeout cfg + 1
              - (now + lag (obs n) + gap (obs n) + latency (obs n))
            < pollTimeout cfg + 1 - now"
          using False by arith
        from less [OF this, of "n + 1" "tr @ [PteroStatus bid]"]
        show ?thesis
          using False nosleep nf st b
          by (subst poll_loop.simps) (auto simp: Let_def)
      qed
    qed
  qed
qed

text \<open>Readings in progress, or failed inside the grace window, are slept over.\<close>

lemma poll_loop_reaches:
  assumes early: "\<forall>i<k. \<exists>b. resp (obs i) = Some b
        \<and> (is_successful b = None
            \<or> is_successful b = Some False \<and> (read_at cfg obs i + 500) div 1000 \<le> 60)"
    and budget: "\<forall>i\<le>k. read_at cfg obs i + gap (obs i) \<le> pollTimeout cfg"
    and fin: "resp (obs k) = Some b" "is_successful b = Some True" "truthy (completed_at b)"
    and n: "n \<le> k" "now + lag (obs n) = read_at cfg obs n"
  shows "\<exists>ex tr'. poll_loop cfg obs bid n now tr = Some (Inr b, ex, tr') \<and> checkCount ex = k + 1"
  using n
proof (induction "k - n" arbitrary: n now tr)
  case 0
  then have nk: "n = k" by simp
  from budget have "read_at cfg obs k + gap (obs k) \<le> pollTimeout cfg" by blast
  with 0 nk fin show ?case
    by (subst poll_loop.simps) (simp add: Let_def)
next
  case (Suc d)
  then have lt: "n < k" by simp
  with early obtain b' where b': "resp (obs n) = Some b'"
    "is_successful b' = None
       \<or> is_successful b' = Some False \<and> (read_at cfg obs n + 500) div 1000 \<le> 60"
    by blast
  from budget lt have bud: "read_at cfg obs n + gap (obs n) \<le> pollTimeout cfg" by simp
  have d: "d = k - (n + 1)" using Suc(2) by simp
  have n1: "n + 1 \<le> k" using lt by simp
  have t: "(now + lag (obs n) + gap (obs n) + latency (obs n) + pollInterval cfg)
             + lag (obs (n + 1)) = read_at cfg obs (n + 1)"
    using Suc.prems(2) by simp
  from Suc(1) [OF d n1 t, of "tr @ [PteroStatus bid] @ [Sleep (pollInterval cfg)]"]
  show ?case
    using b' bud Suc.prems(2)
    by (subst poll_loop.simps) (auto simp: Let_def)
qed

section \<open>Claims about retention rotation\<close>

text \<open>
  C1, as the code has it. Lazy rotation at a storage tier (\<^verbatim>\<open>cleanupOldBackups\<close>): when the
  listing succeeds and no deletion is refused, the files deleted are exactly those at index
  \<open>m\<close> and beyond of the listing, \<open>L - m\<close> of them (none when \<open>L \<le> m\<close>), \<open>min L m\<close> stay, and
  when the listing is newest first, as it is asked for, no deleted file is newer than a
  kept one. Eager rotation at the origin (\<^verbatim>\<open>deleteOldestPteroBackup\<close>, and
  \<^verbatim>\<open>deleteOldestBackupIfLimitReached\<close> with the limit 3): nothing is deleted below the
  limit, and from the limit on exactly one backup is deleted, one of least \<open>createdAt\<close>.
\<close>

theorem C1_rotation:
  "(driveList_result env folder = Some files
      \<and> (\<forall>f\<in>set files. driveDelete_ok env (file_id f)) \<longrightarrow>
        cleanupOldBackups_part0 env folder m =
          (Inr (), DriveList folder # map (\<lambda>f. DriveDelete (file_id f)) (drop m files))
      \<and> length (drop m files) = length files - m
      \<and> length (take m files) = min (length files) m
      \<and> (sorted_wrt (\<lambda>a b. createdTime b \<le> createdTime a) files \<longrightarrow>
           (\<forall>d\<in>set (drop m files). \<forall>k\<in>set (take m files). createdTime d \<le> createdTime k)))
   \<and> (listBackups_result env = Some backups \<longrightarrow>
        (length backups < maxBackupsOnServer cfg \<longrightarrow>
           filter is_ptero_delete (snd (deleteOldestPteroBackup cfg env)) = [])
      \<and> (maxBackupsOnServer cfg \<le> length backups \<and> backups \<noteq> [] \<longrightarrow>
           (\<exists>b\<in>set backups. (\<forall>x\<in>set backups. createdAt b \<le> createdAt x)
              \<and> filter is_ptero_delete (snd (deleteOldestPteroBackup cfg env))
                  = [PteroDelete (backup_id b)]))
      \<and> (length backups < 3 \<longrightarrow>
           filter is_ptero_delete (snd (deleteOldestBackupIfLimitReached env)) = [])
      \<and> (3 \<le> length backups \<longrightarrow>
           (\<exists>b\<in>set backups. (\<forall>x\<in>set backups. createdAt b \<le> createdAt x)
              \<and> filter is_ptero_delete (snd (deleteOldestBackupIfLimitReached env))
                  = [PteroDelete (backup_id b)])))"
proof (rule conjI)
  show "driveList_result env folder = Some files
      \<and> (\<forall>f\<in>set files. driveDelete_ok env (file_id f)) \<longrightarrow>
        cleanupOldBackups_part0 env folder m =
          (Inr (), DriveList folder # map (\<lambda>f. DriveDelete (file_id f)) (drop m files))
      \<and> length (drop m files) = length files - m
      \<and> length (take m files) = min (length files) m
      \<and> (sorted_wrt (\<lambda>a b. createdTime b \<le> createdTime a) files \<longrightarrow>
           (\<forall>d\<in>set (drop m files). \<forall>k\<in>set (take m files). createdTime d \<le> createdTime k))"
    using cleanup_part0_all_ok [of env folder files m] newest_first_split [of files m]
    by simp
next
  show "listBackups_result env = Some backups \<longrightarrow>
        (length backups < maxBackupsOnServer cfg \<longrightarrow>
           filter is_ptero_delete (snd (deleteOldestPteroBackup cfg env)) = [])
      \<and> (maxBackupsOnServer cfg \<le> length backups \<and> backups \<noteq> [] \<longrightarrow>
           (\<exists>b\<in>set backups. (\<forall>x\<in>set backups. createdAt b \<le> createdAt x)
              \<and> filter is_ptero_delete (snd (deleteOldestPteroBackup cfg env))
                  = [PteroDelete (backup_id b)]))
      \<and> (length backups < 3 \<longrightarrow>
           filter is_ptero_delete (snd (deleteOldestBackupIfLimitReached env)) = [])
      \<and> (3 \<le> length backups \<longrightarrow>
           (\<exists>b\<in>set backups. (\<forall>x\<in>set backups. createdAt b \<le> createdAt x)
              \<and> filter is_ptero_delete (snd (deleteOldestBackupIfLimitReached env))
                  = [PteroDelete (backup_id b)]))"
    using eager_index [of env backups cfg] eager_part0 [of env backups]
    by blast
qed

text \<open>Five files at a tier that keeps three, four backups at an origin whose limit is
  two (three for the second script): two files go, and one backup, the oldest.\<close>

theorem C1_rotation_witness:
  "cleanupOldBackups_part0 stocked ''main'' 3
     = (Inr (), [DriveList ''main'', DriveDelete ''f2'', DriveDelete ''f1''])
   \<and> length five_files - 3 = 2 \<and> min (length five_files) 3 = 3
   \<and> deleteOldestPteroBackup cfg0 stocked = (Inr (), [PteroList, PteroDelete ''b1'', Sleep 3000])
   \<and> deleteOldestBackupIfLimitReached stocked = (Inr (), [PteroList, PteroDelete ''b1''])"
  using C1_rotation [of stocked "''main''" five_files 3 four_backups cfg0]
  by (simp add: stocked_def five_files_def four_backups_def cleanupOldBackups_part0_def
      filesToDelete_def deleteOldestPteroBackup_def deleteOldestBackupIfLimitReached_def
      cfg0_def default_config_def calm_def backup_at_def file_at_def)

text \<open>C1 as stated fails for the eager rotation: with four backups listed and a limit of
  two, \<open>max 0 (4 - 2) = 2\<close> deletions are claimed; one request is made, and three backups
  stay where \<open>min 4 2 = 2\<close> are claimed.\<close>

theorem C1_counterexample:
  "listBackups_result stocked = Some four_backups
   \<and> length four_backups = 4 \<and> maxBackupsOnServer cfg0 = 2
   \<and> deleteOldestPteroBackup cfg0 stocked
       = (Inr (), [PteroList, PteroDelete ''b1'', Sleep 3000])
   \<and> length (filter is_ptero_delete (snd (deleteOldestPteroBackup cfg0 stocked)))
       \<noteq> length four_backups - maxBackupsOnServer cfg0"
  by (simp add: stocked_def four_backups_def deleteOldestPteroBackup_def cfg0_def
      default_config_def calm_def backup_at_def)

text \<open>
  C4, as the code has it. A refused deletion ends the rotation: the files of the deletion
  set before it have been deleted, the ones after it are not tried, and the error is
  thrown. Thrown from the rotation of the primary tier it keeps either script from
  completing; thrown from the eager rotation of the second script, which logs it and
  throws it again, it ends the cycle as failed before a backup is created.
\<close>

theorem C4_failed_deletion_aborts:
  "(driveList_result env (folderId cfg) = Some files
      \<and> k < length (filesToDelete files (maxBackups cfg))
      \<and> \<not> driveDelete_ok env (file_id (filesToDelete files (maxBackups cfg) ! k))
      \<and> (\<forall>j<k. driveDelete_ok env (file_id (filesToDelete files (maxBackups cfg) ! j))) \<longrightarrow>
        cleanupOldBackups_index cfg env =
          (Inl DriveError,
           DriveList (folderId cfg) #
             map (\<lambda>f. DriveDelete (file_id f))
               (take (Suc k) (filesToDelete files (maxBackups cfg))))
      \<and> runBackupCycle_index cfg env disk0 \<noteq> Some (Inr Completed, s)
      \<and> runBackupCycle_part0 cfg env flag disk0 \<noteq> Some (Inr Completed, s))
   \<and> (fst (deleteOldestBackupIfLimitReached env) = Inl e \<longrightarrow>
        runBackupCycle_part0 cfg env flag disk0 =
          Some (Inr (Failed e),
            \<lparr>trace = snd (deleteOldestBackupIfLimitReached env), disk = disk0,
             backupId = None, localPath = None\<rparr>))"
proof (intro conjI impI)
  assume h: "driveList_result env (folderId cfg) = Some files
      \<and> k < length (filesToDelete files (maxBackups cfg))
      \<and> \<not> driveDelete_ok env (file_id (filesToDelete files (maxBackups cfg) ! k))
      \<and> (\<forall>j<k. driveDelete_ok env (file_id (filesToDelete files (maxBackups cfg) ! j)))"
  then have de: "deleteEach (driveDelete_ok env) (filesToDelete files (maxBackups cfg)) =
      (Inl DriveError,
       map (\<lambda>f. DriveDelete (file_id f)) (take (Suc k) (filesToDelete files (maxBackups cfg))))"
    by (intro deleteEach_first_failure) auto
  with h show ci: "cleanupOldBackups_index cfg env =
          (Inl DriveError,
           DriveList (folderId cfg) #
             map (\<lambda>f. DriveDelete (file_id f))
               (take (Suc k) (filesToDelete files (maxBackups cfg))))"
    by (simp add: cleanupOldBackups_index_def)
  then show "runBackupCycle_index cfg env disk0 \<noteq> Some (Inr Completed, s)"
    using completed_index [of cfg env disk0 s] by auto
  from de h have "fst (cleanupOldBackups_part0 env (folderId cfg) (maxBackups cfg))
      = Inl DriveError"
    by (simp add: cleanupOldBackups_part0_def)
  then show "runBackupCycle_part0 cfg env flag disk0 \<noteq> Some (Inr Completed, s)"
    using completed_part0 [of cfg env flag disk0 s] by auto
next
  assume "fst (deleteOldestBackupIfLimitReached env) = Inl e"
  then show "runBackupCycle_part0 cfg env flag disk0 =
          Some (Inr (Failed e),
            \<lparr>trace = snd (deleteOldestBackupIfLimitReached env), disk = disk0,
             backupId = None, localPath = None\<rparr>)"
    by (rule eager_failure_part0)
qed

text \<open>Drive refuses to delete \<^verbatim>\<open>f2\<close>, the first of the two files to go; the panel refuses
  to delete the oldest backup.\<close>

theorem C4_failed_deletion_aborts_witness:
  "cleanupOldBackups_index cfg0 delete_fails
     = (Inl DriveError, [DriveList ''main'', DriveDelete ''f2''])
   \<and> runBackupCycle_part0 cfg0 eager_fails False {} =
       Some (Inr (Failed HttpError),
         \<lparr>trace = [PteroList, PteroDelete ''b1''], disk = {}, backupId = None,
          localPath = None\<rparr>)"
proof -
  have a: "driveList_result delete_fails (folderId cfg0) = Some five_files
      \<and> 0 < length (filesToDelete five_files (maxBackups cfg0))
      \<and> \<not> driveDelete_ok delete_fails (file_id (filesToDelete five_files (maxBackups cfg0) ! 0))
      \<and> (\<forall>j<0. driveDelete_ok delete_fails
             (file_id (filesToDelete five_files (maxBackups cfg0) ! j)))"
    by (simp add: delete_fails_def five_files_def filesToDelete_def cfg0_def
        default_config_def file_at_def)
  have b: "deleteOldestBackupIfLimitReached eager_fails
      = (Inl HttpError, [PteroList, PteroDelete ''b1''])"
    by (simp add: eager_fails_def four_backups_def deleteOldestBackupIfLimitReached_def
        calm_def backup_at_def)
  from C4_failed_deletion_aborts [of delete_fails cfg0 five_files 0 "{}" undefined False] a
  have "cleanupOldBackups_index cfg0 delete_fails =
      (Inl DriveError,
       DriveList (folderId cfg0) #
         map (\<lambda>f. DriveDelete (file_id f)) (take (Suc 0) (filesToDelete five_files (maxBackups cfg0))))"
    by blast
  moreover
  from C4_failed_deletion_aborts [of eager_fails cfg0 five_files 0 "{}" undefined False HttpError] b
  have "runBackupCycle_part0 cfg0 eager_fails False {} =
      Some (Inr (Failed HttpError),
        \<lparr>trace = snd (deleteOldestBackupIfLimitReached eager_fails), disk = {},
         backupId = None, localPath = None\<rparr>)"
    by simp
  ultimately show ?thesis
    using b by (simp add: five_files_def filesToDelete_def cfg0_def default_config_def file_at_def)
qed

text \<open>C4 as stated fails: the deletion set is \<^verbatim>\<open>f2\<close>, \<^verbatim>\<open>f1\<close>; after the refusal of
  \<^verbatim>\<open>f2\<close> no request for \<^verbatim>\<open>f1\<close> is made, and a cycle in which every other step
  succeeds is reported as failed.\<close>

theorem C4_counterexample:
  "filesToDelete five_files (maxBackups cfg0) = [file_at ''f2'' 2, file_at ''f1'' 1]
   \<and> cleanupOldBackups_index cfg0 delete_fails
       = (Inl DriveError, [DriveList ''main'', DriveDelete ''f2''])
   \<and> runBackupCycle_index cfg0 delete_fails {} =
       Some (Inr (Failed DriveError),
         \<lparr>trace = [PteroList, PteroCreate, Sleep 30000, PteroStatus ''job'',
                   PteroDownloadUrl ''job'', HttpDownload ''url'' staged,
                   DriveUpload staged ''main'' ''29-Nov-2PM.tar.gz'',
                   PteroDelete ''job'', DriveList ''main'', DriveDelete ''f2'',
                   PteroDelete ''job'', Unlink staged],
          disk = {}, backupId = Some ''job'', localPath = Some staged\<rparr>)"
  by (simp add: run_defs delete_fails_def five_files_def)

section \<open>Claims about the cycle\<close>

text \<open>
  C2, as the code has it. Once \<^verbatim>\<open>createBackup\<close> has returned a non-empty id, a cycle that
  returns has made at least one and at most two delete requests for that id since then:
  exactly one when the cycle completes, and exactly one whenever no step placed after the
  delete inside the \<^verbatim>\<open>try\<close> block throws (the staging \<^verbatim>\<open>unlinkSync\<close>, and in
  \<^verbatim>\<open>index.js\<close> also the rotation of the primary tier).
\<close>

theorem C2_job_deleted_once_or_twice:
  "(runBackupCycle_index cfg env files = Some (out, s)
      \<and> createBackup_index cfg env = (Inr bid, tr0) \<and> bid \<noteq> [] \<longrightarrow>
      (\<exists>rest. trace s = tr0 @ rest
         \<and> 1 \<le> job_deletes bid rest \<and> job_deletes bid rest \<le> 2
         \<and> (out = Inr Completed \<longrightarrow> job_deletes bid rest = 1)
         \<and> (unlink_ok env \<and> fst (cleanupOldBackups_index cfg env) = Inr ()
              \<longrightarrow> job_deletes bid rest = 1)))
   \<and> (runBackupCycle_part0 cfg env flag files = Some (out', s')
      \<and> createBackup_part0 env = (Inr bid', tr0') \<and> bid' \<noteq> [] \<longrightarrow>
      (\<exists>rest. trace s' = tr0' @ rest
         \<and> 1 \<le> job_deletes bid' rest \<and> job_deletes bid' rest \<le> 2
         \<and> (out' = Inr Completed \<longrightarrow> job_deletes bid' rest = 1)
         \<and> (unlink_ok env \<longrightarrow> job_deletes bid' rest = 1)))"
proof (intro conjI impI)
  assume "runBackupCycle_index cfg env files = Some (out, s)
      \<and> createBackup_index cfg env = (Inr bid, tr0) \<and> bid \<noteq> []"
  then have "runBackupCycle_index cfg env files = Some (out, s)"
    "createBackup_index cfg env = (Inr bid, tr0)" "bid \<noteq> []" by simp_all
  then show "\<exists>rest. trace s = tr0 @ rest
         \<and> 1 \<le> job_deletes bid rest \<and> job_deletes bid rest \<le> 2
         \<and> (out = Inr Completed \<longrightarrow> job_deletes bid rest = 1)
         \<and> (unlink_ok env \<and> fst (cleanupOldBackups_index cfg env) = Inr ()
              \<longrightarrow> job_deletes bid rest = 1)"
    by (rule job_deleted_index)
next
  assume "runBackupCycle_part0 cfg env flag files = Some (out', s')
      \<and> createBackup_part0 env = (Inr bid', tr0') \<and> bid' \<noteq> []"
  then have "runBackupCycle_part0 cfg env flag files = Some (out', s')"
    "createBackup_part0 env = (Inr bid', tr0')" "bid' \<noteq> []" by simp_all
  then show "\<exists>rest. trace s' = tr0' @ rest
         \<and> 1 \<le> job_deletes bid' rest \<and> job_deletes bid' rest \<le> 2
         \<and> (out' = Inr Completed \<longrightarrow> job_deletes bid' rest = 1)
         \<and> (unlink_ok env \<longrightarrow> job_deletes bid' rest = 1)"
    by (rule job_deleted_part0)
qed

text \<open>A cycle of each script in which nothing fails: one delete request for the job.\<close>

theorem C2_job_deleted_once_or_twice_witness:
  "createBackup_index cfg0 calm = (Inr ''job'', [PteroList, PteroCreate])
   \<and> runBackupCycle_index cfg0 calm {} =
       Some (Inr Completed,
         \<lparr>trace = [PteroList, PteroCreate] @
                  [Sleep 30000, PteroStatus ''job'', PteroDownloadUrl ''job'',
                   HttpDownload ''url'' staged,
                   DriveUpload staged ''main'' ''29-Nov-2PM.tar.gz'',
                   PteroDelete ''job'', DriveList ''main'', Unlink staged],
          disk = {}, backupId = Some ''job'', localPath = Some staged\<rparr>)
   \<and> createBackup_part0 calm = (Inr ''job'', [PteroList, PteroCreate])
   \<and> runBackupCycle_part0 cfg0 calm False {} =
       Some (Inr Completed,
         \<lparr>trace = [PteroList, PteroCreate] @
                  [Sleep 30000, PteroStatus ''job'', PteroDownloadUrl ''job'',
                   HttpDownload ''url'' staged,
                   DriveUpload staged ''main'' ''29-Nov-2PM.tar.gz'',
                   DriveList ''main'', PteroDelete ''job'', Unlink staged],
          disk = {}, backupId = Some ''job'', localPath = Some staged\<rparr>)
   \<and> job_deletes ''job''
        [Sleep 30000, PteroStatus ''job'', PteroDownloadUrl ''job'',
         HttpDownload ''url'' staged, DriveUpload staged ''main'' ''29-Nov-2PM.tar.gz'',
         PteroDelete ''job'', DriveList ''main'', Unlink staged] = 1"
proof -
  let ?si = "\<lparr>trace = [PteroList, PteroCreate] @
                  [Sleep 30000, PteroStatus ''job'', PteroDownloadUrl ''job'',
                   HttpDownload ''url'' staged,
                   DriveUpload staged ''main'' ''29-Nov-2PM.tar.gz'',
                   PteroDelete ''job'', DriveList ''main'', Unlink staged],
          disk = {}, backupId = Some ''job'', localPath = Some staged\<rparr>"
  let ?sp = "\<lparr>trace = [PteroList, PteroCreate] @
                  [Sleep 30000, PteroStatus ''job'', PteroDownloadUrl ''job'',
                   HttpDownload ''url'' staged,
                   DriveUpload staged ''main'' ''29-Nov-2PM.tar.gz'',
                   DriveList ''main'', PteroDelete ''job'', Unlink staged],
          disk = {}, backupId = Some ''job'', localPath = Some staged\<rparr>"
  have a: "createBackup_index cfg0 calm = (Inr ''job'', [PteroList, PteroCreate])"
    "createBackup_part0 calm = (Inr ''job'', [PteroList, PteroCreate])"
    by (simp_all add: run_defs)
  have b: "runBackupCycle_index cfg0 calm {} = Some (Inr Completed, ?si)"
    by (simp add: run_defs)
  have c: "runBackupCycle_part0 cfg0 calm False {} = Some (Inr Completed, ?sp)"
    by (simp add: run_defs)
  from C2_job_deleted_once_or_twice
    [of cfg0 calm "{}" "Inr Completed" ?si "''job''" "[PteroList, PteroCreate]"
        False "Inr Completed" ?sp "''job''" "[PteroList, PteroCreate]"] a b c
  show ?thesis by simp
qed

text \<open>C2 as stated fails in \<^verbatim>\<open>index.js\<close>: the listing of the primary folder is refused
  after the job was deleted, the \<^verbatim>\<open>catch\<close> block deletes it again, and two delete
  requests for the one id have been made.\<close>

theorem C2_counterexample:
  "createBackup_index cfg0 list_fails = (Inr ''job'', [PteroList, PteroCreate])
   \<and> runBackupCycle_index cfg0 list_fails {} =
       Some (Inr (Failed DriveError),
         \<lparr>trace = [PteroList, PteroCreate] @
                  [Sleep 30000, PteroStatus ''job'', PteroDownloadUrl ''job'',
                   HttpDownload ''url'' staged,
                   DriveUpload staged ''main'' ''29-Nov-2PM.tar.gz'',
                   PteroDelete ''job'', DriveList ''main'', PteroDelete ''job'', Unlink staged],
          disk = {}, backupId = Some ''job'', localPath = Some staged\<rparr>)
   \<and> job_deletes ''job''
        [Sleep 30000, PteroStatus ''job'', PteroDownloadUrl ''job'',
         HttpDownload ''url'' staged,
         DriveUpload staged ''main'' ''29-Nov-2PM.tar.gz'',
         PteroDelete ''job'', DriveList ''main'', PteroDelete ''job'', Unlink staged] = 2"
  by (simp add: run_defs list_fails_def)

section \<open>Claims about the poll loop\<close>

text \<open>
  C5. The wait ends with the backup-failed error only when the rounded \<^verbatim>\<open>elapsed\<close> it
  computed exceeds 60 seconds. And for every poll trace whose reads before read \<open>k\<close>
  report in progress, or report failed while \<^verbatim>\<open>elapsed\<close> is at most 60 (each read made
  before the time budget is spent), and whose read \<open>k\<close> reports success with
  \<^verbatim>\<open>completed_at\<close> set, the wait returns that backup after \<open>k + 1\<close> checks, and the
  cycle of \<^verbatim>\<open>index.js\<close> goes on to ask for the download URL.
\<close>

theorem C5_grace_window:
  "(waitForBackupCompletion cfg env bid = Some (Inl BackupFailed, ex, tr) \<longrightarrow> 60 < elapsed ex)
   \<and> ((\<forall>i<k. \<exists>b'. resp (poll env i) = Some b'
            \<and> (is_successful b' = None
                \<or> is_successful b' = Some False
                    \<and> (read_at cfg (poll env) i + 500) div 1000 \<le> 60))
        \<and> (\<forall>i\<le>k. read_at cfg (poll env) i + gap (poll env i) \<le> pollTimeout cfg)
        \<and> resp (poll env k) = Some b \<and> is_successful b = Some True
        \<and> truthy (completed_at b) \<longrightarrow>
          (\<exists>ex' tr'. waitForBackupCompletion cfg env bid = Some (Inr b, ex', tr')
              \<and> checkCount ex' = k + 1)
        \<and> (createBackup_index cfg env = (Inr bid, tr0) \<longrightarrow>
             (\<exists>out s. runBackupCycle_index cfg env files = Some (out, s)
                \<and> PteroDownloadUrl bid \<in> set (trace s))))"
proof (intro conjI impI)
  assume "waitForBackupCompletion cfg env bid = Some (Inl BackupFailed, ex, tr)"
  from poll_loop_exits [OF this [unfolded waitForBackupCompletion_def]]
  show "60 < elapsed ex" by simp
next
  assume h: "(\<forall>i<k. \<exists>b'. resp (poll env i) = Some b'
            \<and> (is_successful b' = None
                \<or> is_successful b' = Some False
                    \<and> (read_at cfg (poll env) i + 500) div 1000 \<le> 60))
        \<and> (\<forall>i\<le>k. read_at cfg (poll env) i + gap (poll env i) \<le> pollTimeout cfg)
        \<and> resp (poll env k) = Some b \<and> is_successful b = Some True
        \<and> truthy (completed_at b)"
  have w: "\<exists>ex' tr'. poll_loop cfg (poll env) bid 0 0 [Sleep (initialDelay cfg)]
              = Some (Inr b, ex', tr') \<and> checkCount ex' = k + 1"
    by (rule poll_loop_reaches) (use h in simp_all)
  then show w': "\<exists>ex' tr'. waitForBackupCompletion cfg env bid = Some (Inr b, ex', tr')
              \<and> checkCount ex' = k + 1"
    by (simp add: waitForBackupCompletion_def)
  assume "createBackup_index cfg env = (Inr bid, tr0)"
  with w' show "\<exists>out s. runBackupCycle_index cfg env files = Some (out, s)
                \<and> PteroDownloadUrl bid \<in> set (trace s)"
    by (blast dest: proceeds_to_download)
qed

text \<open>The scenario of the specification, failed at 5 s and succeeded at 40 s: the wait
  returns at the second check and the cycle completes. And a failed reading at 70 s is
  fatal.\<close>

theorem C5_grace_window_witness:
  "waitForBackupCompletion cfg0 transient ''job'' =
     Some (Inr succeeded, \<lparr>checkCount = 2, elapsed = 40, since_start = 40200\<rparr>,
           [Sleep 30000, PteroStatus ''job'', Sleep 10000, PteroStatus ''job''])
   \<and> runBackupCycle_index cfg0 transient {} =
       Some (Inr Completed,
         \<lparr>trace = [PteroList, PteroCreate, Sleep 30000, PteroStatus ''job'', Sleep 10000,
                   PteroStatus ''job'', PteroDownloadUrl ''job'', HttpDownload ''url'' staged,
                   DriveUpload staged ''main'' ''29-Nov-2PM.tar.gz'',
                   PteroDelete ''job'', DriveList ''main'', Unlink staged],
          disk = {}, backupId = Some ''job'', localPath = Some staged\<rparr>)
   \<and> waitForBackupCompletion cfg0 always_failed ''job'' =
     Some (Inl BackupFailed, \<lparr>checkCount = 3, elapsed = 70, since_start = 95000\<rparr>,
           [Sleep 30000, PteroStatus ''job'', Sleep 10000, PteroStatus ''job'',
            Sleep 10000, PteroStatus ''job''])
   \<and> (60::nat) < 70"
proof -
  have a: "(\<forall>i<1. \<exists>b'. resp (poll transient i) = Some b'
            \<and> (is_successful b' = None
                \<or> is_successful b' = Some False
                    \<and> (read_at cfg0 (poll transient) i + 500) div 1000 \<le> 60))
        \<and> (\<forall>i\<le>1. read_at cfg0 (poll transient) i + gap (poll transient i) \<le> pollTimeout cfg0)
        \<and> resp (poll transient 1) = Some succeeded \<and> is_successful succeeded = Some True
        \<and> truthy (completed_at succeeded)"
    by (simp add: transient_def calm_def failed_def succeeded_def truthy_def cfg0_def
        default_config_def le_Suc_eq)
  have b: "waitForBackupCompletion cfg0 always_failed ''job'' =
     Some (Inl BackupFailed, \<lparr>checkCount = 3, elapsed = 70, since_start = 95000\<rparr>,
           [Sleep 30000, PteroStatus ''job'', Sleep 10000, PteroStatus ''job'',
            Sleep 10000, PteroStatus ''job''])"
    by (simp add: run_defs always_failed_def)
  have c: "runBackupCycle_index cfg0 transient {} =
       Some (Inr Completed,
         \<lparr>trace = [PteroList, PteroCreate, Sleep 30000, PteroStatus ''job'', Sleep 10000,
                   PteroStatus ''job'', PteroDownloadUrl ''job'', HttpDownload ''url'' staged,
                   DriveUpload staged ''main'' ''29-Nov-2PM.tar.gz'',
                   PteroDelete ''job'', DriveList ''main'', Unlink staged],
          disk = {}, backupId = Some ''job'', localPath = Some staged\<rparr>)"
    by (simp add: run_defs transient_def)
  have d: "waitForBackupCompletion cfg0 transient ''job'' =
     Some (Inr succeeded, \<lparr>checkCount = 2, elapsed = 40, since_start = 40200\<rparr>,
           [Sleep 30000, PteroStatus ''job'', Sleep 10000, PteroStatus ''job''])"
    by (simp add: run_defs transient_def)
  from C5_grace_window [of cfg0 always_failed "''job''"
      "\<lparr>checkCount = 3, elapsed = 70, since_start = 95000\<rparr>"
      "[Sleep 30000, PteroStatus ''job'', Sleep 10000, PteroStatus ''job'',
        Sleep 10000, PteroStatus ''job'']" 0 succeeded "[]" "{}"] b
  have e: "(60::nat) < 70" by simp
  from C5_grace_window [of cfg0 transient "''job''" undefined undefined 1 succeeded
      "[PteroList, PteroCreate]" "{}"] a
  have "\<exists>ex' tr'. waitForBackupCompletion cfg0 transient ''job'' = Some (Inr succeeded, ex', tr')
          \<and> checkCount ex' = 1 + 1"
    by blast
  with b c d e show ?thesis by simp
qed

text \<open>C6 as stated fails: here no read ever reports success, and the wait ends 70
  seconds after its start with the backup-failed error, not with the timeout error, the
  budget of 900 seconds unspent.\<close>

theorem C6_counterexample:
  "resp (poll always_failed 0) = Some failed \<and> resp (poll always_failed 1) = Some failed
   \<and> resp (poll always_failed 2) = Some failed
   \<and> pollTimeout cfg0 = 900000
   \<and> waitForBackupCompletion cfg0 always_failed ''job'' =
     Some (Inl BackupFailed, \<lparr>checkCount = 3, elapsed = 70, since_start = 95000\<rparr>,
           [Sleep 30000, PteroStatus ''job'', Sleep 10000, PteroStatus ''job'',
            Sleep 10000, PteroStatus ''job''])"
  by (simp add: run_defs always_failed_def)

text \<open>
  C6, as the code has it. The timeout error is raised only when the clock read for the
  check exceeds \<^verbatim>\<open>pollTimeout\<close>, never earlier. For every poll trace that never reports
  success with \<^verbatim>\<open>completed_at\<close>, whose reads are answered, and in which a read that
  reports success without \<^verbatim>\<open>completed_at\<close> takes some time, the wait terminates: with
  the timeout error, raised past the budget and no later than one poll interval plus
  twice the longest delay of one iteration after it; or, when some read reports failed,
  possibly with the backup-failed error, raised when \<^verbatim>\<open>elapsed\<close> exceeds 60.
\<close>

theorem C6_timeout:
  "(waitForBackupCompletion cfg env bid = Some (Inl BackupTimeout, ex, tr) \<longrightarrow>
      pollTimeout cfg < since_start ex)
   \<and> (0 < pollInterval cfg
        \<and> (\<forall>i. \<exists>b. resp (poll env i) = Some b
              \<and> \<not> (is_successful b = Some True \<and> truthy (completed_at b))
              \<and> (is_successful b = Some True \<longrightarrow>
                   0 < lag (poll env i) + gap (poll env i) + latency (poll env i))) \<longrightarrow>
        (\<exists>e ex' tr'. waitForBackupCompletion cfg env bid = Some (Inl e, ex', tr')
           \<and> (e = BackupTimeout \<and> pollTimeout cfg < since_start ex'
                \<and> (\<forall>D. (\<forall>i. lag (poll env i) + gap (poll env i) + latency (poll env i) \<le> D)
                      \<longrightarrow> since_start ex' \<le> pollTimeout cfg + pollInterval cfg + 2 * D)
               \<or> e = BackupFailed \<and> 60 < elapsed ex'
                   \<and> (\<exists>i b. resp (poll env i) = Some b \<and> is_successful b = Some False))))"
proof (intro conjI impI)
  assume "waitForBackupCompletion cfg env bid = Some (Inl BackupTimeout, ex, tr)"
  from poll_loop_exits [OF this [unfolded waitForBackupCompletion_def]]
  show "pollTimeout cfg < since_start ex" by simp
next
  assume h: "0 < pollInterval cfg
        \<and> (\<forall>i. \<exists>b. resp (poll env i) = Some b
              \<and> \<not> (is_successful b = Some True \<and> truthy (completed_at b))
              \<and> (is_successful b = Some True \<longrightarrow>
                   0 < lag (poll env i) + gap (poll env i) + latency (poll env i)))"
  then have pos: "0 < pollInterval cfg"
    and obs: "\<forall>i. \<exists>b. resp (poll env i) = Some b
              \<and> \<not> (is_successful b = Some True \<and> truthy (completed_at b))
              \<and> (is_successful b = Some True \<longrightarrow>
                   0 < lag (poll env i) + gap (poll env i) + latency (poll env i))"
    by simp_all
  from poll_loop_terminates [OF pos obs, of bid 0 0 "[Sleep (initialDelay cfg)]"]
  obtain e ex' tr' where
    r: "poll_loop cfg (poll env) bid 0 0 [Sleep (initialDelay cfg)] = Some (Inl e, ex', tr')"
    and e: "e = BackupTimeout
       \<or> e = BackupFailed \<and> (\<exists>i b. resp (poll env i) = Some b \<and> is_successful b = Some False)"
    by blast
  from poll_loop_exits [OF r]
  have x: "e = BackupFailed \<longrightarrow> 60 < elapsed ex'"
    "e = BackupTimeout \<longrightarrow> pollTimeout cfg < since_start ex'"
    by simp_all
  have late: "\<forall>D. (\<forall>i. lag (poll env i) + gap (poll env i) + latency (poll env i) \<le> D)
      \<longrightarrow> e = BackupTimeout
      \<longrightarrow> since_start ex' \<le> pollTimeout cfg + pollInterval cfg + 2 * D"
    using poll_loop_not_late [OF r] by simp
  from r e x late
  show "\<exists>e ex' tr'. waitForBackupCompletion cfg env bid = Some (Inl e, ex', tr')
           \<and> (e = BackupTimeout \<and> pollTimeout cfg < since_start ex'
                \<and> (\<forall>D. (\<forall>i. lag (poll env i) + gap (poll env i) + latency (poll env i) \<le> D)
                      \<longrightarrow> since_start ex' \<le> pollTimeout cfg + pollInterval cfg + 2 * D)
               \<or> e = BackupFailed \<and> 60 < elapsed ex'
                   \<and> (\<exists>i b. resp (poll env i) = Some b \<and> is_successful b = Some False))"
    unfolding waitForBackupCompletion_def by blast
qed

text \<open>A budget of 25 seconds, every read in progress and answered in 200 ms: the
  timeout is raised at the fourth check, 30.6 seconds after the start.\<close>

theorem C6_timeout_witness:
  "waitForBackupCompletion cfg_short never_done ''job'' =
     Some (Inl BackupTimeout, \<lparr>checkCount = 4, elapsed = 31, since_start = 30600\<rparr>,
           [Sleep 30000, PteroStatus ''job'', Sleep 10000, PteroStatus ''job'',
            Sleep 10000, PteroStatus ''job'', Sleep 10000])
   \<and> pollTimeout cfg_short < 30600
   \<and> 30600 \<le> pollTimeout cfg_short + pollInterval cfg_short + 2 * 200"
proof -
  have a: "waitForBackupCompletion cfg_short never_done ''job'' =
     Some (Inl BackupTimeout, \<lparr>checkCount = 4, elapsed = 31, since_start = 30600\<rparr>,
           [Sleep 30000, PteroStatus ''job'', Sleep 10000, PteroStatus ''job'',
            Sleep 10000, PteroStatus ''job'', Sleep 10000])"
    by (simp add: run_defs never_done_def cfg_short_def)
  have b: "0 < pollInterval cfg_short
        \<and> (\<forall>i. \<exists>b. resp (poll never_done i) = Some b
              \<and> \<not> (is_successful b = Some True \<and> truthy (completed_at b))
              \<and> (is_successful b = Some True \<longrightarrow>
                   0 < lag (poll never_done i) + gap (poll never_done i)
                         + latency (poll never_done i)))"
    by (simp add: never_done_def calm_def answer_def in_progress_def cfg_short_def cfg0_def
        default_config_def)
  have c: "\<forall>i. lag (poll never_done i) + gap (poll never_done i) + latency (poll never_done i)
             \<le> 200"
    by (simp add: never_done_def calm_def answer_def)
  from C6_timeout [of cfg_short never_done "''job''"
      "\<lparr>checkCount = 4, elapsed = 31, since_start = 30600\<rparr>"
      "[Sleep 30000, PteroStatus ''job'', Sleep 10000, PteroStatus ''job'',
        Sleep 10000, PteroStatus ''job'', Sleep 10000]"] a b c
  show ?thesis by auto
qed

text \<open>
  C7 fails on the code. The first read reports success without \<^verbatim>\<open>completed_at\<close>: no
  branch of the loop body applies, the loop goes round at once, and the second status
  read follows the first with no \<^verbatim>\<open>setTimeout\<close> between them.
\<close>

theorem C7_reads_without_sleep:
  "resp (poll incomplete_first 0) = Some succeeded_incomplete
   \<and> waitForBackupCompletion cfg0 incomplete_first ''job'' =
     Some (Inr succeeded, \<lparr>checkCount = 2, elapsed = 0, since_start = 400\<rparr>,
           [Sleep 30000, PteroStatus ''job'', PteroStatus ''job''])"
  by (simp add: run_defs incomplete_first_def)

section \<open>Claims about names and the archive tier\<close>

text \<open>
  C8 fails on the code. At 2 PM on 29 November the name of the primary artifact is
  \<^verbatim>\<open>29-Nov-2PM.tar.gz\<close>: the format token \<^verbatim>\<open>h\<close> does not pad the hour, and the name
  claimed, \<^verbatim>\<open>29-Nov-02PM.tar.gz\<close>, is not produced.
\<close>

theorem C8_hour_not_padded:
  "t_day two_pm = 29 \<and> t_month two_pm = Nov \<and> t_hour two_pm = 14
   \<and> mainFileName two_pm = ''29-Nov-2PM.tar.gz''
   \<and> mainFileName two_pm \<noteq> ''29-Nov-02PM.tar.gz''
   \<and> uploadToGoogleDrive_index cfg0 calm staged
       = (Inr (), [DriveUpload staged ''main'' ''29-Nov-2PM.tar.gz''])
   \<and> uploadToGoogleDrive_part0 calm staged (folderId cfg0) (mainFileName (dayjs_start calm))
       = (Inr (), [DriveUpload staged ''main'' ''29-Nov-2PM.tar.gz''])"
  by (simp add: name_defs uploadToGoogleDrive_index_def uploadToGoogleDrive_part0_def
      cfg0_def default_config_def calm_def)

text \<open>
  C9, as the code has it. \<^verbatim>\<open>runBackupCycle\<close> of \<^verbatim>\<open>index.js\<close> takes no archive flag: it
  makes the archive upload and the archive rotation if and only if \<^verbatim>\<open>isDailyBackupTime\<close>
  finds the wall clock at 23:59 after the primary upload and a days folder is
  configured. \<^verbatim>\<open>runBackupCycle(isDailyBackup)\<close> of the second script makes them if and
  only if the flag is true and a days folder is configured. In both, the Drive uploads
  and listings of a completed cycle are exactly the ones below, and those of a cycle that
  returns after a failure are a prefix of them.
\<close>

theorem C9_archive_branch:
  "(runBackupCycle_index cfg env files = Some (out, s) \<longrightarrow>
      prefix (filter is_drive_call (trace s))
        ([DriveUpload (path_join (tempDir cfg) (tempFileName (dayjs_staging env))) (folderId cfg)
            (mainFileName (dayjs_upload env))] @
         (if isDailyBackupTime (dayjs_dailycheck env) \<and> daysFolderId cfg \<noteq> []
          then [DriveUpload (path_join (tempDir cfg) (tempFileName (dayjs_staging env)))
                  (daysFolderId cfg) (dailyFileName (dayjs_daysupload env)),
                DriveList (daysFolderId cfg)]
          else []) @
         [DriveList (folderId cfg)])
     \<and> (out = Inr Completed \<longrightarrow> filter is_drive_call (trace s) =
         [DriveUpload (path_join (tempDir cfg) (tempFileName (dayjs_staging env))) (folderId cfg)
            (mainFileName (dayjs_upload env))] @
         (if isDailyBackupTime (dayjs_dailycheck env) \<and> daysFolderId cfg \<noteq> []
          then [DriveUpload (path_join (tempDir cfg) (tempFileName (dayjs_staging env)))
                  (daysFolderId cfg) (dailyFileName (dayjs_daysupload env)),
                DriveList (daysFolderId cfg)]
          else []) @
         [DriveList (folderId cfg)]))
   \<and> (runBackupCycle_part0 cfg env flag files = Some (out', s') \<longrightarrow>
      prefix (filter is_drive_call (trace s'))
        ([DriveUpload (path_join (tempDir cfg) (tempFileName (dayjs_start env))) (folderId cfg)
            (mainFileName (dayjs_start env)),
          DriveList (folderId cfg)] @
         (if flag \<and> daysFolderId cfg \<noteq> []
          then [DriveUpload (path_join (tempDir cfg) (tempFileName (dayjs_start env)))
                  (daysFolderId cfg) (dailyFileName (dayjs_start env)),
                DriveList (daysFolderId cfg)]
          else []))
     \<and> (out' = Inr Completed \<longrightarrow> filter is_drive_call (trace s') =
         [DriveUpload (path_join (tempDir cfg) (tempFileName (dayjs_start env))) (folderId cfg)
            (mainFileName (dayjs_start env)),
          DriveList (folderId cfg)] @
         (if flag \<and> daysFolderId cfg \<noteq> []
          then [DriveUpload (path_join (tempDir cfg) (tempFileName (dayjs_start env)))
                  (daysFolderId cfg) (dailyFileName (dayjs_start env)),
                DriveList (daysFolderId cfg)]
          else [])))"
proof (rule conjI)
  show "runBackupCycle_index cfg env files = Some (out, s) \<longrightarrow>
      prefix (filter is_drive_call (trace s))
        ([DriveUpload (path_join (tempDir cfg) (tempFileName (dayjs_staging env))) (folderId cfg)
            (mainFileName (dayjs_upload env))] @
         (if isDailyBackupTime (dayjs_dailycheck env) \<and> daysFolderId cfg \<noteq> []
          then [DriveUpload (path_join (tempDir cfg) (tempFileName (dayjs_staging env)))
                  (daysFolderId cfg) (dailyFileName (dayjs_daysupload env)),
                DriveList (daysFolderId cfg)]
          else []) @
         [DriveList (folderId cfg)])
     \<and> (out = Inr Completed \<longrightarrow> filter is_drive_call (trace s) =
         [DriveUpload (path_join (tempDir cfg) (tempFileName (dayjs_staging env))) (folderId cfg)
            (mainFileName (dayjs_upload env))] @
         (if isDailyBackupTime (dayjs_dailycheck env) \<and> daysFolderId cfg \<noteq> []
          then [DriveUpload (path_join (tempDir cfg) (tempFileName (dayjs_staging env)))
                  (daysFolderId cfg) (dailyFileName (dayjs_daysupload env)),
                DriveList (daysFolderId cfg)]
          else []) @
         [DriveList (folderId cfg)])"
    by (rule impI) (erule drive_calls_index)
next
  show "runBackupCycle_part0 cfg env flag files = Some (out', s') \<longrightarrow>
      prefix (filter is_drive_call (trace s'))
        ([DriveUpload (path_join (tempDir cfg) (tempFileName (dayjs_start env))) (folderId cfg)
            (mainFileName (dayjs_start env)),
          DriveList (folderId cfg)] @
         (if flag \<and> daysFolderId cfg \<noteq> []
          then [DriveUpload (path_join (tempDir cfg) (tempFileName (dayjs_start env)))
                  (daysFolderId cfg) (dailyFileName (dayjs_start env)),
                DriveList (daysFolderId cfg)]
          else []))
     \<and> (out' = Inr Completed \<longrightarrow> filter is_drive_call (trace s') =
         [DriveUpload (path_join (tempDir cfg) (tempFileName (dayjs_start env))) (folderId cfg)
            (mainFileName (dayjs_start env)),
          DriveList (folderId cfg)] @
         (if flag \<and> daysFolderId cfg \<noteq> []
          then [DriveUpload (path_join (tempDir cfg) (tempFileName (dayjs_start env)))
                  (daysFolderId cfg) (dailyFileName (dayjs_start env)),
                DriveList (daysFolderId cfg)]
          else []))"
    by (rule impI) (erule drive_calls_part0)
qed

text \<open>The first script at 23:59 and the second with the flag set, a days folder
  configured: both make the archive upload and list the days folder.\<close>

theorem C9_archive_branch_witness:
  "runBackupCycle_index cfg0 at_last_minute {} =
     Some (Inr Completed,
       \<lparr>trace = [PteroList, PteroCreate, Sleep 30000, PteroStatus ''job'',
                 PteroDownloadUrl ''job'', HttpDownload ''url'' staged,
                 DriveUpload staged ''main'' ''29-Nov-2PM.tar.gz'',
                 DriveUpload staged ''days'' ''29-Nov-2025.tar.gz'', DriveList ''days'',
                 PteroDelete ''job'', DriveList ''main'', Unlink staged],
        disk = {}, backupId = Some ''job'', localPath = Some staged\<rparr>)
   \<and> runBackupCycle_part0 cfg0 calm True {} =
     Some (Inr Completed,
       \<lparr>trace = [PteroList, PteroCreate, Sleep 30000, PteroStatus ''job'',
                 PteroDownloadUrl ''job'', HttpDownload ''url'' staged,
                 DriveUpload staged ''main'' ''29-Nov-2PM.tar.gz'', DriveList ''main'',
                 DriveUpload staged ''days'' ''29-Nov-2025.tar.gz'', DriveList ''days'',
                 PteroDelete ''job'', Unlink staged],
        disk = {}, backupId = Some ''job'', localPath = Some staged\<rparr>)
   \<and> isDailyBackupTime (dayjs_dailycheck at_last_minute)"
proof -
  let ?si = "\<lparr>trace = [PteroList, PteroCreate, Sleep 30000, PteroStatus ''job'',
                 PteroDownloadUrl ''job'', HttpDownload ''url'' staged,
                 DriveUpload staged ''main'' ''29-Nov-2PM.tar.gz'',
                 DriveUpload staged ''days'' ''29-Nov-2025.tar.gz'', DriveList ''days'',
                 PteroDelete ''job'', DriveList ''main'', Unlink staged],
        disk = {}, backupId = Some ''job'', localPath = Some staged\<rparr>"
  let ?sp = "\<lparr>trace = [PteroList, PteroCreate, Sleep 30000, PteroStatus ''job'',
                 PteroDownloadUrl ''job'', HttpDownload ''url'' staged,
                 DriveUpload staged ''main'' ''29-Nov-2PM.tar.gz'', DriveList ''main'',
                 DriveUpload staged ''days'' ''29-Nov-2025.tar.gz'', DriveList ''days'',
                 PteroDelete ''job'', Unlink staged],
        disk = {}, backupId = Some ''job'', localPath = Some staged\<rparr>"
  have a: "runBackupCycle_index cfg0 at_last_minute {} = Some (Inr Completed, ?si)"
    by (simp add: run_defs at_last_minute_def)
  have b: "runBackupCycle_part0 cfg0 calm True {} = Some (Inr Completed, ?sp)"
    by (simp add: run_defs)
  have c: "isDailyBackupTime (dayjs_dailycheck at_last_minute)"
    by (simp add: at_last_minute_def daily_times)
  from C9_archive_branch [of cfg0 at_last_minute "{}" "Inr Completed" ?si] a
  have "filter is_drive_call (trace ?si) =
         [DriveUpload (path_join (tempDir cfg0) (tempFileName (dayjs_staging at_last_minute)))
            (folderId cfg0) (mainFileName (dayjs_upload at_last_minute))] @
         (if isDailyBackupTime (dayjs_dailycheck at_last_minute) \<and> daysFolderId cfg0 \<noteq> []
          then [DriveUpload
                  (path_join (tempDir cfg0) (tempFileName (dayjs_staging at_last_minute)))
                  (daysFolderId cfg0) (dailyFileName (dayjs_daysupload at_last_minute)),
                DriveList (daysFolderId cfg0)]
          else []) @
         [DriveList (folderId cfg0)]"
    by blast
  with a b c show ?thesis by simp
qed

text \<open>C9 as stated fails. In \<^verbatim>\<open>index.js\<close> two cycles that differ in nothing but the wall
  clock read by \<^verbatim>\<open>isDailyBackupTime\<close> differ in the archive upload; in the second
  script a cycle with the flag set and no days folder makes no archive upload.\<close>

theorem C9_counterexample:
  "runBackupCycle_index cfg0 calm {} =
     Some (Inr Completed,
       \<lparr>trace = [PteroList, PteroCreate, Sleep 30000, PteroStatus ''job'',
                 PteroDownloadUrl ''job'', HttpDownload ''url'' staged,
                 DriveUpload staged ''main'' ''29-Nov-2PM.tar.gz'',
                 PteroDelete ''job'', DriveList ''main'', Unlink staged],
        disk = {}, backupId = Some ''job'', localPath = Some staged\<rparr>)
   \<and> runBackupCycle_index cfg0 (calm\<lparr>dayjs_dailycheck := last_minute\<rparr>) {} =
     Some (Inr Completed,
       \<lparr>trace = [PteroList, PteroCreate, Sleep 30000, PteroStatus ''job'',
                 PteroDownloadUrl ''job'', HttpDownload ''url'' staged,
                 DriveUpload staged ''main'' ''29-Nov-2PM.tar.gz'',
                 DriveUpload staged ''days'' ''29-Nov-2025.tar.gz'', DriveList ''days'',
                 PteroDelete ''job'', DriveList ''main'', Unlink staged],
        disk = {}, backupId = Some ''job'', localPath = Some staged\<rparr>)
   \<and> runBackupCycle_part0 cfg_no_days calm True {} =
     Some (Inr Completed,
       \<lparr>trace = [PteroList, PteroCreate, Sleep 30000, PteroStatus ''job'',
                 PteroDownloadUrl ''job'', HttpDownload ''url'' staged,
                 DriveUpload staged ''main'' ''29-Nov-2PM.tar.gz'', DriveList ''main'',
                 PteroDelete ''job'', Unlink staged],
        disk = {}, backupId = Some ''job'', localPath = Some staged\<rparr>)"
  by (simp add: run_defs cfg_no_days_def)

text \<open>
  C10. Without a days folder, a cycle of the second script flagged as an archive cycle is
  the cycle without the flag, step for step; \<^verbatim>\<open>uploadToDaysFolder\<close> and
  \<^verbatim>\<open>cleanupOldDailyBackups\<close> of \<^verbatim>\<open>index.js\<close> return without a call and without an
  error; and when the remaining steps succeed, the flagged cycle, and the cycle of
  \<^verbatim>\<open>index.js\<close> at any time of day, complete with the primary upload and the primary
  rotation as their only Drive uploads and listings.
\<close>

theorem C10_no_days_folder:
  "daysFolderId cfg = [] \<longrightarrow>
     runBackupCycle_part0 cfg env True files = runBackupCycle_part0 cfg env False files
   \<and> uploadToDaysFolder cfg env p = (Inr (), [])
   \<and> cleanupOldDailyBackups cfg env = (Inr (), [])
   \<and> (createBackup_part0 env = (Inr bid, tr0)
        \<and> waitForBackupCompletion cfg env bid = Some (Inr b, ex, tr)
        \<and> downloadUrl_result env \<noteq> None \<and> download_result env = DlOk
        \<and> driveUpload_ok env (folderId cfg)
        \<and> fst (cleanupOldBackups_part0 env (folderId cfg) (maxBackups cfg)) = Inr ()
        \<and> unlink_ok env \<longrightarrow>
        (\<exists>s. runBackupCycle_part0 cfg env True files = Some (Inr Completed, s)
           \<and> filter is_drive_call (trace s) =
               [DriveUpload (path_join (tempDir cfg) (tempFileName (dayjs_start env)))
                  (folderId cfg) (mainFileName (dayjs_start env)),
                DriveList (folderId cfg)]))
   \<and> (createBackup_index cfg env = (Inr bid, tr0)
        \<and> waitForBackupCompletion cfg env bid = Some (Inr b, ex, tr)
        \<and> downloadUrl_result env \<noteq> None \<and> download_result env = DlOk
        \<and> driveUpload_ok env (folderId cfg)
        \<and> fst (cleanupOldBackups_index cfg env) = Inr ()
        \<and> unlink_ok env \<longrightarrow>
        (\<exists>s. runBackupCycle_index cfg env files = Some (Inr Completed, s)
           \<and> filter is_drive_call (trace s) =
               [DriveUpload (path_join (tempDir cfg) (tempFileName (dayjs_staging env)))
                  (folderId cfg) (mainFileName (dayjs_upload env)),
                DriveList (folderId cfg)]))"
proof (intro impI conjI)
  assume d: "daysFolderId cfg = []"
  then have same: "\<And>bid. transfer_part0 cfg env True bid = transfer_part0 cfg env False bid"
    by (simp add: transfer_part0_def)
  show "runBackupCycle_part0 cfg env True files = runBackupCycle_part0 cfg env False files"
    unfolding runBackupCycle_part0_def same by (rule refl)
  from d show "uploadToDaysFolder cfg env p = (Inr (), [])"
    by (simp add: uploadToDaysFolder_def)
  from d show "cleanupOldDailyBackups cfg env = (Inr (), [])"
    by (simp add: cleanupOldDailyBackups_def)
  {
    assume h: "createBackup_part0 env = (Inr bid, tr0)
        \<and> waitForBackupCompletion cfg env bid = Some (Inr b, ex, tr)
        \<and> downloadUrl_result env \<noteq> None \<and> download_result env = DlOk
        \<and> driveUpload_ok env (folderId cfg)
        \<and> fst (cleanupOldBackups_part0 env (folderId cfg) (maxBackups cfg)) = Inr ()
        \<and> unlink_ok env"
    have "\<exists>s. runBackupCycle_part0 cfg env True files = Some (Inr Completed, s)"
      by (rule succeeds_part0 [of env bid tr0 cfg b ex tr]) (use h d in simp_all)
    then obtain s where s: "runBackupCycle_part0 cfg env True files = Some (Inr Completed, s)"
      by blast
    from drive_calls_part0 [OF s] d s
    show "\<exists>s. runBackupCycle_part0 cfg env True files = Some (Inr Completed, s)
           \<and> filter is_drive_call (trace s) =
               [DriveUpload (path_join (tempDir cfg) (tempFileName (dayjs_start env)))
                  (folderId cfg) (mainFileName (dayjs_start env)),
                DriveList (folderId cfg)]"
      by simp
  }
  {
    assume h: "createBackup_index cfg env = (Inr bid, tr0)
        \<and> waitForBackupCompletion cfg env bid = Some (Inr b, ex, tr)
        \<and> downloadUrl_result env \<noteq> None \<and> download_result env = DlOk
        \<and> driveUpload_ok env (folderId cfg)
        \<and> fst (cleanupOldBackups_index cfg env) = Inr ()
        \<and> unlink_ok env"
    have "\<exists>s. runBackupCycle_index cfg env files = Some (Inr Completed, s)"
      by (rule succeeds_index [of cfg env bid tr0 b ex tr]) (use h d in simp_all)
    then obtain s where s: "runBackupCycle_index cfg env files = Some (Inr Completed, s)"
      by blast
    from drive_calls_index [OF s] d s
    show "\<exists>s. runBackupCycle_index cfg env files = Some (Inr Completed, s)
           \<and> filter is_drive_call (trace s) =
               [DriveUpload (path_join (tempDir cfg) (tempFileName (dayjs_staging env)))
                  (folderId cfg) (mainFileName (dayjs_upload env)),
                DriveList (folderId cfg)]"
      by simp
  }
qed

text \<open>No days folder, nothing fails: the flagged cycle of the second script and the
  cycle of \<^verbatim>\<open>index.js\<close> at 23:59 complete without an archive upload.\<close>

theorem C10_no_days_folder_witness:
  "daysFolderId cfg_no_days = []
   \<and> runBackupCycle_part0 cfg_no_days calm True {} =
     Some (Inr Completed,
       \<lparr>trace = [PteroList, PteroCreate, Sleep 30000, PteroStatus ''job'',
                 PteroDownloadUrl ''job'', HttpDownload ''url'' staged,
                 DriveUpload staged ''main'' ''29-Nov-2PM.tar.gz'', DriveList ''main'',
                 PteroDelete ''job'', Unlink staged],
        disk = {}, backupId = Some ''job'', localPath = Some staged\<rparr>)
   \<and> runBackupCycle_part0 cfg_no_days calm False {} =
       runBackupCycle_part0 cfg_no_days calm True {}
   \<and> runBackupCycle_index cfg_no_days at_last_minute {} =
     Some (Inr Completed,
       \<lparr>trace = [PteroList, PteroCreate, Sleep 30000, PteroStatus ''job'',
                 PteroDownloadUrl ''job'', HttpDownload ''url'' staged,
                 DriveUpload staged ''main'' ''29-Nov-2PM.tar.gz'',
                 PteroDelete ''job'', DriveList ''main'', Unlink staged],
        disk = {}, backupId = Some ''job'', localPath = Some staged\<rparr>)"
proof -
  have a: "daysFolderId cfg_no_days = []"
    by (simp add: cfg_no_days_def)
  have b: "runBackupCycle_part0 cfg_no_days calm True {} =
     Some (Inr Completed,
       \<lparr>trace = [PteroList, PteroCreate, Sleep 30000, PteroStatus ''job'',
                 PteroDownloadUrl ''job'', HttpDownload ''url'' staged,
                 DriveUpload staged ''main'' ''29-Nov-2PM.tar.gz'', DriveList ''main'',
                 PteroDelete ''job'', Unlink staged],
        disk = {}, backupId = Some ''job'', localPath = Some staged\<rparr>)"
    by (simp add: run_defs cfg_no_days_def)
  have c: "runBackupCycle_index cfg_no_days at_last_minute {} =
     Some (Inr Completed,
       \<lparr>trace = [PteroList, PteroCreate, Sleep 30000, PteroStatus ''job'',
                 PteroDownloadUrl ''job'', HttpDownload ''url'' staged,
                 DriveUpload staged ''main'' ''29-Nov-2PM.tar.gz'',
                 PteroDelete ''job'', DriveList ''main'', Unlink staged],
        disk = {}, backupId = Some ''job'', localPath = Some staged\<rparr>)"
    by (simp add: run_defs cfg_no_days_def at_last_minute_def)
  from C10_no_days_folder [of cfg_no_days calm "{}"] a
  have "runBackupCycle_part0 cfg_no_days calm True {}
      = runBackupCycle_part0 cfg_no_days calm False {}"
    by blast
  with a b c show ?thesis by simp
qed

end
